theory Spec2Isabelle
  imports Main "HOL-Library.Sublist" "HOL-Library.Word"
begin

section \<open>Go strings\<close>

text \<open>
  A Go string is a sequence of bytes; it is modelled as a \<^typ>\<open>string\<close>, one \<^typ>\<open>char\<close> per
  byte. The functions of this section are those of Go's package \<open>strings\<close> that the service
  calls, written out on bytes.
\<close>

definition NL :: string where
  "NL = [CHR 0x0A]"

text \<open>
  \<open>unicode.IsSpace\<close> holds of the runes U+0009 to U+000D, U+0020, U+0085, U+00A0, U+1680,
  U+2000 to U+200A, U+2028, U+2029, U+202F, U+205F and U+3000. Go decodes a string as UTF-8,
  and a byte sequence decodes to one of these runes exactly when it is the rune's (shortest)
  UTF-8 encoding, so the white space runes are given here by their encodings.
\<close>

definition spaceRunes :: "string list" where
  "spaceRunes =
    [[CHR 0x09], [CHR 0x0A], [CHR 0x0B], [CHR 0x0C], [CHR 0x0D], [CHR 0x20],
     [CHR 0xC2, CHR 0x85], [CHR 0xC2, CHR 0xA0],
     [CHR 0xE1, CHR 0x9A, CHR 0x80],
     [CHR 0xE2, CHR 0x80, CHR 0x80], [CHR 0xE2, CHR 0x80, CHR 0x81],
     [CHR 0xE2, CHR 0x80, CHR 0x82], [CHR 0xE2, CHR 0x80, CHR 0x83],
     [CHR 0xE2, CHR 0x80, CHR 0x84], [CHR 0xE2, CHR 0x80, CHR 0x85],
     [CHR 0xE2, CHR 0x80, CHR 0x86], [CHR 0xE2, CHR 0x80, CHR 0x87],
     [CHR 0xE2, CHR 0x80, CHR 0x88], [CHR 0xE2, CHR 0x80, CHR 0x89],
     [CHR 0xE2, CHR 0x80, CHR 0x8A],
     [CHR 0xE2, CHR 0x80, CHR 0xA8], [CHR 0xE2, CHR 0x80, CHR 0xA9],
     [CHR 0xE2, CHR 0x80, CHR 0xAF], [CHR 0xE2, CHR 0x81, CHR 0x9F],
     [CHR 0xE3, CHR 0x80, CHR 0x80]]"

text \<open>
  The number of bytes of the white space rune a string starts with, and of the one it ends
  with; 0 when there is none.
\<close>

definition leadingSpace :: "string \<Rightarrow> nat" where
  "leadingSpace s = (case find (\<lambda>w. prefix w s) spaceRunes of None \<Rightarrow> 0 | Some w \<Rightarrow> length w)"

definition trailingSpace :: "string \<Rightarrow> nat" where
  "trailingSpace s = (case find (\<lambda>w. suffix w s) spaceRunes of None \<Rightarrow> 0 | Some w \<Rightarrow> length w)"

text \<open>
  \<open>strings.TrimSpace\<close>: the white space runes at the start are cut off, then those at the end
  of what is left (\<open>TrimRightFunc(TrimLeftFunc(s, unicode.IsSpace), unicode.IsSpace)\<close>).
\<close>

function TrimLeftSpace :: "string \<Rightarrow> string" where
  "TrimLeftSpace s = (if leadingSpace s = 0 then s else TrimLeftSpace (drop (leadingSpace s) s))"
  by pat_completeness auto
termination
proof (relation "measure length")
  show "wf (measure (length :: string \<Rightarrow> nat))" by simp
next
  fix s :: string
  assume "leadingSpace s \<noteq> 0"
  moreover have "leadingSpace [] = 0" by (simp add: leadingSpace_def spaceRunes_def)
  ultimately have "s \<noteq> []" by auto
  with \<open>leadingSpace s \<noteq> 0\<close> show "(drop (leadingSpace s) s, s) \<in> measure length" by simp
qed

function TrimRightSpace :: "string \<Rightarrow> string" where
  "TrimRightSpace s =
     (if trailingSpace s = 0 then s else TrimRightSpace (take (length s - trailingSpace s) s))"
  by pat_completeness auto
termination
proof (relation "measure length")
  show "wf (measure (length :: string \<Rightarrow> nat))" by simp
next
  fix s :: string
  assume "trailingSpace s \<noteq> 0"
  moreover have "trailingSpace [] = 0" by (simp add: trailingSpace_def spaceRunes_def)
  ultimately have "s \<noteq> []" by auto
  with \<open>trailingSpace s \<noteq> 0\<close>
  show "(take (length s - trailingSpace s) s, s) \<in> measure length" by simp
qed

definition TrimSpace :: "string \<Rightarrow> string" where
  "TrimSpace s = TrimRightSpace (TrimLeftSpace s)"

text \<open>\<open>strings.HasPrefix\<close> and \<open>strings.TrimPrefix\<close>.\<close>

definition HasPrefix :: "string \<Rightarrow> string \<Rightarrow> bool" where
  "HasPrefix s p = prefix p s"

definition TrimPrefix :: "string \<Rightarrow> string \<Rightarrow> string" where
  "TrimPrefix s p = (if HasPrefix s p then drop (length p) s else s)"

text \<open>
  \<open>strings.Index\<close>: the position of the first occurrence of \<open>sep\<close> in \<open>s\<close>, \<open>None\<close> for Go's -1.
  \<open>strings.Contains\<close> tests it.
\<close>

fun Index :: "string \<Rightarrow> string \<Rightarrow> nat option" where
  "Index [] sep = (if sep = [] then Some 0 else None)"
| "Index (c # s) sep = (if prefix sep (c # s) then Some 0 else map_option Suc (Index s sep))"

definition Contains :: "string \<Rightarrow> string \<Rightarrow> bool" where
  "Contains s sub = (Index s sub \<noteq> None)"

text \<open>
  \<open>strings.Split\<close> with a separator that is not empty: the string is cut at the first
  occurrence of the separator, and the rest is split in the same way. (With the empty
  separator Go cuts after every UTF-8 sequence; the service never passes it, and the model
  then cuts after every byte.)
\<close>

function Split :: "string \<Rightarrow> string \<Rightarrow> string list" where
  "Split s sep =
     (if sep = [] then map (\<lambda>c. [c]) s
      else case Index s sep of
        None \<Rightarrow> [s]
      | Some m \<Rightarrow> take m s # Split (drop (m + length sep) s) sep)"
  by pat_completeness auto
termination
proof (relation "measure (\<lambda>(s, sep). length s)")
  show "wf (measure (\<lambda>(s, sep). length s))" by simp
next
  fix s sep :: string and m :: nat
  assume "sep \<noteq> []" and "Index s sep = Some m"
  then have "s \<noteq> []" by (cases s) auto
  with \<open>sep \<noteq> []\<close> show "((drop (m + length sep) s, sep), (s, sep)) \<in> measure (\<lambda>(s, sep). length s)"
    by simp
qed

text \<open>
  \<open>strings.Fields\<close>: the maximal runs of bytes between white space runes. \<open>field\<close> is the
  field being read (empty when none is open, Go's \<open>start < 0\<close>).
\<close>

function fieldsFrom :: "string \<Rightarrow> string \<Rightarrow> string list" where
  "fieldsFrom field s =
     (if s = [] then (if field = [] then [] else [field])
      else if leadingSpace s = 0 then fieldsFrom (field @ [hd s]) (tl s)
      else if field = [] then fieldsFrom [] (drop (leadingSpace s) s)
      else field # fieldsFrom [] (drop (leadingSpace s) s))"
  by pat_completeness auto
termination
  by (relation "measure (\<lambda>(field, s). length s)") auto

definition Fields :: "string \<Rightarrow> string list" where
  "Fields s = fieldsFrom [] s"

text \<open>
  \<open>strings.TrimRight\<close> with a cutset of ASCII characters: the bytes of the cutset are cut
  off the end.
\<close>

definition TrimRight :: "string \<Rightarrow> string \<Rightarrow> string" where
  "TrimRight s cutset = rev (dropWhile (\<lambda>c. c \<in> set cutset) (rev s))"

text \<open>
  \<open>strings.ToLower\<close> on the ASCII letters. Go also maps the runes beyond ASCII to lower
  case; none of them becomes one of the characters of \<open>.pdf\<close>, the only text the service looks
  for in a lowered string, so their bytes are left as they are.
\<close>

definition toLowerByte :: "char \<Rightarrow> char" where
  "toLowerByte c =
     (if 65 \<le> (of_char c :: nat) \<and> (of_char c :: nat) \<le> 90 then char_of ((of_char c :: nat) + 32) else c)"

definition ToLower :: "string \<Rightarrow> string" where
  "ToLower s = map toLowerByte s"

text \<open>The verb \<open>%d\<close> of \<open>fmt.Sprintf\<close>: an integer in decimal.\<close>

function decimal :: "nat \<Rightarrow> string" where
  "decimal n =
     (if n < 10 then [''0123456789'' ! n] else decimal (n div 10) @ [''0123456789'' ! (n mod 10)])"
  by pat_completeness auto
termination
  by (relation "measure id") auto

definition formatInt :: "int \<Rightarrow> string" where
  "formatInt i = (if i < 0 then CHR ''-'' # decimal (nat (- i)) else decimal (nat i))"

section \<open>Flashcards\<close>

text \<open>The structs of \<open>internal/models/flashcard.go\<close>.\<close>

record Flashcard =
  Question :: string
  Answer :: string
  Topic :: string

record FlashcardSet =
  Title :: string
  Flashcards :: "Flashcard list"
  Source :: string
  CreatedAt :: string
  TotalCards :: int

subsection \<open>The parser of the model's response\<close>

text \<open>
  Lines 130 to 163 of \<open>generateFlashcards\<close>. The inner loop runs over the lines of one
  block and carries the variables \<open>question\<close>, \<open>answer\<close> and \<open>topic\<close>.
\<close>

fun scanLines :: "string \<times> string \<times> string \<Rightarrow> string list \<Rightarrow> string \<times> string \<times> string" where
  "scanLines (question, answer, topic) [] = (question, answer, topic)"
| "scanLines (question, answer, topic) (line # lines) =
     (let line' = TrimSpace line in
      if HasPrefix line' ''Q:'' then
        scanLines (TrimSpace (TrimPrefix line' ''Q:''), answer, topic) lines
      else if HasPrefix line' ''A:'' then
        scanLines (question, TrimSpace (TrimPrefix line' ''A:''), topic) lines
      else if HasPrefix line' ''T:'' then
        scanLines (question, answer, TrimSpace (TrimPrefix line' ''T:'')) lines
      else scanLines (question, answer, topic) lines)"

text \<open>The outer loop runs over the blocks (the source's loop variable \<open>card\<close> is \<open>block\<close> here,
  \<open>card\<close> being the cardinality of HOL) and carries the slice \<open>flashcards\<close>.\<close>

fun scanCards :: "Flashcard list \<Rightarrow> string list \<Rightarrow> Flashcard list" where
  "scanCards flashcards [] = flashcards"
| "scanCards flashcards (block # cards) =
     (if \<not> Contains block ''Q:'' \<or> \<not> Contains block ''A:'' then scanCards flashcards cards
      else
        (case scanLines ([], [], []) (Split block NL) of
          (question, answer, topic) \<Rightarrow>
            if question \<noteq> [] \<and> answer \<noteq> [] then
              scanCards
                (flashcards @
                  [\<lparr>Question = question, Answer = answer,
                    Topic = (if topic = [] then ''Concept'' else topic)\<rparr>])
                cards
            else scanCards flashcards cards))"

definition parseFlashcards :: "string \<Rightarrow> Flashcard list" where
  "parseFlashcards responseText = scanCards [] (Split responseText (NL @ NL))"

section \<open>Errors\<close>

text \<open>The JSON-RPC error codes of \<open>internal/models/jsonrpc.go\<close>.\<close>

definition ParseError :: int where
  "ParseError = - 32700"

definition InvalidRequest :: int where
  "InvalidRequest = - 32600"

definition MethodNotFound :: int where
  "MethodNotFound = - 32601"

definition InvalidParams :: int where
  "InvalidParams = - 32602"

definition InternalError :: int where
  "InternalError = - 32603"

text \<open>
  Modelled from the spec: the package \<open>pkg/errors\<close> (the type \<open>AppError\<close> and its constructor
  \<open>NewAppError\<close>) is not among the sources. The spec says that all errors carry a kind, a
  human message and an optional diagnostic; the callers pass the code, the message and the
  underlying Go error (\<open>nil\<close> or an error, kept here by its text), and the handler reads the
  fields \<open>Code\<close> and \<open>Message\<close>.
\<close>

record AppError =
  Code :: int
  Message :: string
  Cause :: "string option"

definition NewAppError :: "int \<Rightarrow> string \<Rightarrow> string option \<Rightarrow> AppError" where
  "NewAppError code message err = \<lparr>Code = code, Message = message, Cause = err\<rparr>"

text \<open>
  What a call of a fallible Go function comes to: a value with a \<open>nil\<close> error, an
  \<open>AppError\<close>, or a run-time panic.
\<close>

datatype 'a result = Ok 'a | Failed AppError | Panic

section \<open>Collaborators\<close>

text \<open>
  The generative model, the HTTP client, the PDF library and the clock are outside the
  repository. A \<open>World\<close> fixes how they answer during one request.

  \<^item> \<open>GenerateContent\<close> is \<open>s.model.GenerateContent\<close> as a function of the prompt: an error, or
    a response with its candidates. A candidate is given by its \<open>Content\<close> pointer (\<open>None\<close>
    for \<open>nil\<close>) and the content by its parts, each part by the text the verb \<open>%v\<close> prints
    for it (for a \<open>genai.Text\<close> part, the text itself).
  \<^item> \<open>HTTPGet\<close> is \<open>s.httpClient.Get\<close> followed by \<open>io.ReadAll\<close> of the body: the request
    fails, or there is a status code and the body is read or fails to be.
  \<^item> \<open>NewPDFReader\<close> is \<open>pdf.NewReader\<close>: an error, or the pages of the document, each a null
    page or a page whose plain text is extracted or fails to be.
  \<^item> \<open>CreatedAtNow\<close> is \<open>time.Now().UTC().Format(time.RFC3339)\<close> as \<open>generateFlashcards\<close>
    reads it.
\<close>

type_synonym Candidate = "string list option"

datatype GenerateContentResult = GenerateError string | GenerateResponse "Candidate list"

datatype HTTPGetResult = GetError string | GetResponse int "string + string"

datatype PDFPage = NullPage | PlainText "string + string"

record World =
  GenerateContent :: "string \<Rightarrow> GenerateContentResult"
  HTTPGet :: "string \<Rightarrow> HTTPGetResult"
  NewPDFReader :: "string \<Rightarrow> string + PDFPage list"
  CreatedAtNow :: string

section \<open>The PDF service\<close>

text \<open>\<open>internal/service/pdf_service.go\<close>.\<close>

definition DownloadPDF :: "'w World_scheme \<Rightarrow> string \<Rightarrow> string result" where
  "DownloadPDF w url =
     (case HTTPGet w url of
        GetError err \<Rightarrow> Failed (NewAppError InternalError ''Failed to download PDF'' (Some err))
      | GetResponse statusCode body \<Rightarrow>
          if statusCode \<noteq> 200 then
            Failed (NewAppError InternalError
              (''Failed to download PDF: status '' @ formatInt statusCode) None)
          else
            (case body of
               Inl err \<Rightarrow> Failed (NewAppError InternalError ''Failed to read PDF data'' (Some err))
             | Inr data \<Rightarrow> Ok data))"

text \<open>The loop of \<open>ExtractText\<close> over the pages, from page \<open>pageNum\<close> on.\<close>

fun extractPages :: "string \<Rightarrow> nat \<Rightarrow> PDFPage list \<Rightarrow> string result" where
  "extractPages textBuilder pageNum [] = Ok textBuilder"
| "extractPages textBuilder pageNum (NullPage # pages) =
     extractPages textBuilder (pageNum + 1) pages"
| "extractPages textBuilder pageNum (PlainText (Inl err) # pages) =
     Failed (NewAppError InternalError
       (''Failed to extract text from page '' @ formatInt (int pageNum)) (Some err))"
| "extractPages textBuilder pageNum (PlainText (Inr text) # pages) =
     extractPages (textBuilder @ text) (pageNum + 1) pages"

definition ExtractText :: "'w World_scheme \<Rightarrow> string \<Rightarrow> string result" where
  "ExtractText w pdfData =
     (case NewPDFReader w pdfData of
        Inl err \<Rightarrow> Failed (NewAppError InternalError ''Failed to create PDF reader'' (Some err))
      | Inr pages \<Rightarrow> extractPages [] 1 pages)"

text \<open>\<open>ValidatePDF\<close> returns an error or \<open>nil\<close>.\<close>

definition ValidatePDF :: "string \<Rightarrow> AppError option" where
  "ValidatePDF data =
     (if length data < 4 then Some (NewAppError InvalidParams ''Invalid PDF: file too small'' None)
      else if \<not> prefix ''%PDF'' data then
        Some (NewAppError InvalidParams ''Invalid PDF: incorrect file format'' None)
      else None)"

section \<open>The flashcard service\<close>

text \<open>\<open>internal/service/flashcard_service.go\<close>.\<close>

definition generateTitle :: "string \<Rightarrow> string" where
  "generateTitle source = (if HasPrefix source ''http'' then ''Flashcards from PDF'' else ''Study Flashcards'')"

text \<open>The prompt: \<open>fmt.Sprintf\<close> puts the text in the place of \<open>%s\<close>.\<close>

definition prompt :: "string \<Rightarrow> string" where
  "prompt text =
     ''Create a set of 5-10 high-quality flashcards from the following text. '' @ NL @
     ''Each flashcard should:'' @ NL @
     ''- Have a clear, specific question'' @ NL @
     ''- Include a concise but comprehensive answer'' @ NL @
     ''- Be categorized with an appropriate topic'' @ NL @
     ''- Cover key concepts, definitions, and applications'' @ NL @
     NL @
     ''Text to process:'' @ NL @
     text @ NL @
     NL @
     ''Format each flashcard as:'' @ NL @
     ''Q: [Question]'' @ NL @
     ''A: [Answer]'' @ NL @
     ''T: [Topic]'' @ NL @
     NL"

text \<open>
  \<open>generateFlashcards\<close> returns its result together with the prompts it has sent to the
  model, in order: the calls of \<open>GenerateContent\<close> it has made. Reading
  \<open>resp.Candidates[0].Content.Parts\<close> through a \<open>nil\<close> \<open>Content\<close> is a panic.
\<close>

definition generateFlashcards ::
  "'w World_scheme \<Rightarrow> string \<Rightarrow> string \<Rightarrow> FlashcardSet result \<times> string list" where
  "generateFlashcards w text source =
     (if length (TrimSpace text) = 0 then
        (Failed (NewAppError InvalidParams ''no content to generate flashcards from'' None), [])
      else
        ((case GenerateContent w (prompt text) of
            GenerateError err \<Rightarrow>
              Failed (NewAppError InternalError ''failed to generate flashcards'' (Some err))
          | GenerateResponse candidates \<Rightarrow>
              (case candidates of
                 [] \<Rightarrow> Failed (NewAppError InternalError ''no response generated from AI model'' None)
               | None # _ \<Rightarrow> Panic
               | Some [] # _ \<Rightarrow>
                   Failed (NewAppError InternalError ''no response generated from AI model'' None)
               | Some (part # _) # _ \<Rightarrow>
                   (let flashcards = parseFlashcards part in
                    if length flashcards = 0 then
                      Failed (NewAppError InternalError
                        ''could not generate meaningful flashcards from the content'' None)
                    else
                      Ok \<lparr>Title = generateTitle source, Flashcards = flashcards, Source = source,
                          CreatedAt = CreatedAtNow w, TotalCards = int (length flashcards)\<rparr>))),
         [prompt text]))"

definition GenerateFromURL :: "'w World_scheme \<Rightarrow> string \<Rightarrow> FlashcardSet result \<times> string list" where
  "GenerateFromURL w url =
     (case DownloadPDF w url of
        Failed err \<Rightarrow> (Failed err, [])
      | Panic \<Rightarrow> (Panic, [])
      | Ok pdfData \<Rightarrow>
          (case ValidatePDF pdfData of
             Some err \<Rightarrow> (Failed err, [])
           | None \<Rightarrow>
               (case ExtractText w pdfData of
                  Failed err \<Rightarrow> (Failed err, [])
                | Panic \<Rightarrow> (Panic, [])
                | Ok text \<Rightarrow> generateFlashcards w text url)))"

definition GenerateFromPDFData :: "'w World_scheme \<Rightarrow> string \<Rightarrow> FlashcardSet result \<times> string list" where
  "GenerateFromPDFData w pdfData =
     (case ValidatePDF pdfData of
        Some err \<Rightarrow> (Failed err, [])
      | None \<Rightarrow>
          (case ExtractText w pdfData of
             Failed err \<Rightarrow> (Failed err, [])
           | Panic \<Rightarrow> (Panic, [])
           | Ok text \<Rightarrow> generateFlashcards w text ''uploaded_pdf''))"

definition GenerateFromText :: "'w World_scheme \<Rightarrow> string \<Rightarrow> FlashcardSet result \<times> string list" where
  "GenerateFromText w text = generateFlashcards w text ''user_input''"

text \<open>
  \<open>FormatAsText\<close>. The loop over the cards carries the builder and the index \<open>i\<close>.
\<close>

fun writeCards :: "string \<Rightarrow> nat \<Rightarrow> Flashcard list \<Rightarrow> string" where
  "writeCards builder i [] = builder"
| "writeCards builder i (c # cards) =
     writeCards
       (builder @ ''**Card '' @ formatInt (int i + 1) @ ''**'' @
        (if Topic c \<noteq> [] then '' ('' @ Topic c @ '')'' else []) @
        NL @
        ''Q: '' @ Question c @ NL @
        ''A: '' @ Answer c @ NL @ NL)
       (i + 1) cards"

definition FormatAsText :: "FlashcardSet \<Rightarrow> string" where
  "FormatAsText set' =
     writeCards
       (''# '' @ Title set' @ NL @ NL @
        ''Generated '' @ formatInt (TotalCards set') @ '' flashcards from: '' @ Source set' @ NL @ NL)
       0 (Flashcards set')"

text \<open>\<open>ExtractPDFURL\<close>: the loop over the words, then the function.\<close>

fun firstPDFWord :: "string list \<Rightarrow> string" where
  "firstPDFWord [] = []"
| "firstPDFWord (word # words) =
     (let cleaned = TrimRight word ''.,;'' in
      if HasPrefix cleaned ''http'' \<and> Contains (ToLower cleaned) ''.pdf'' then cleaned
      else firstPDFWord words)"

definition ExtractPDFURL :: "string \<Rightarrow> string" where
  "ExtractPDFURL text = firstPDFWord (Fields text)"

section \<open>Messages and tasks\<close>

text \<open>
  A Go value of type \<open>interface{}\<close>, as far as the handler tells its dynamic types apart:
  \<open>nil\<close>, what \<open>encoding/json\<close> decodes into (\<open>bool\<close>, \<open>float64\<close>, given by its 64 bits,
  \<open>string\<close>, \<open>[]interface{}\<close>, \<open>map[string]interface{}\<close>), a \<open>[]byte\<close>, and the
  \<open>*FlashcardSet\<close> the handler itself stores in an artifact. A map is a list of entries with
  distinct keys, read with \<^const>\<open>map_of\<close>.
\<close>

datatype any =
  VNil
| VBool bool
| VFloat64 "64 word"
| VString string
| VBytes string
| VArray "any list"
| VMap "(string \<times> any) list"
| VFlashcardSet FlashcardSet

text \<open>The type assertions \<open>v.(string)\<close>, \<open>v.([]byte)\<close> and \<open>v.(map[string]interface{})\<close> in
  their two-valued form, on the value a map lookup or a field gives (\<open>None\<close> or \<open>VNil\<close> for
  \<open>nil\<close>).\<close>

fun asString :: "any option \<Rightarrow> string option" where
  "asString (Some (VString s)) = Some s"
| "asString _ = None"

fun asBytes :: "any option \<Rightarrow> string option" where
  "asBytes (Some (VBytes b)) = Some b"
| "asBytes _ = None"

fun asMap :: "any option \<Rightarrow> (string \<times> any) list option" where
  "asMap (Some (VMap m)) = Some m"
| "asMap _ = None"

text \<open>The structs and constants of the message model (\<open>internal/models\<close>).\<close>

record MessagePart =
  PartKind :: string
  Text :: string
  Data :: any

record Message =
  Kind :: string
  Role :: string
  Parts :: "MessagePart list"
  MessageID :: string
  TaskID :: string
  Metadata :: any

record Status =
  State :: string
  Timestamp :: string
  StatusMessage :: Message

record Artifact =
  ArtifactID :: string
  Name :: string
  ArtifactParts :: "MessagePart list"

record TaskResult =
  ID :: string
  ContextID :: string
  TaskStatus :: Status
  Artifacts :: "Artifact list"
  History :: "Message list"
  TaskKind :: string

definition StateCompleted :: string where
  "StateCompleted = ''completed''"

definition RoleAgent :: string where
  "RoleAgent = ''agent''"

definition KindText :: string where
  "KindText = ''text''"

definition KindData :: string where
  "KindData = ''data''"

definition KindMessage :: string where
  "KindMessage = ''message''"

text \<open>The JSON-RPC envelope (\<open>internal/models/jsonrpc.go\<close>).\<close>

record JSONRPCRequest =
  ReqJSONRPC :: string
  ReqID :: string
  ReqMethod :: string
  Params :: "(string \<times> any) list"

record RPCError =
  ErrorCode :: int
  ErrorMessage :: string
  ErrorData :: string

record JSONRPCResponse =
  RespJSONRPC :: string
  RespID :: string
  Result :: "TaskResult option"
  Error :: "RPCError option"

section \<open>The A2A handler\<close>

text \<open>
  \<open>internal/handler/a2a_handler.go\<close>. The handler's surroundings extend the \<open>World\<close>:

  \<^item> \<open>DecodeRequest\<close> is \<open>json.NewDecoder(r.Body).Decode(&req)\<close> as a function of the body: an
    error, by its text, or the decoded request.
  \<^item> \<open>UnmarshalMessage\<close> is \<open>json.Marshal\<close> of the message object followed by
    \<open>json.Unmarshal\<close> into a \<open>Message\<close>: an error or the message.
  \<^item> \<open>ErrorText\<close> is the method \<open>Error()\<close> of an \<open>AppError\<close>, of the package \<open>pkg/errors\<close>
    that is not among the sources.
  \<^item> \<open>NewUUID n\<close> is the text of the \<open>n\<close>-th UUID that \<open>uuid.New()\<close> makes during the request,
    counted from 0; it has 36 characters, so the slice \<open>[:8]\<close> is its first 8.
  \<^item> \<open>StatusNow\<close> is the time \<open>buildTaskResult\<close> reads.
\<close>

record Handler = World +
  DecodeRequest :: "string \<Rightarrow> string + JSONRPCRequest"
  UnmarshalMessage :: "(string \<times> any) list \<Rightarrow> string + Message"
  ErrorText :: "AppError \<Rightarrow> string"
  NewUUID :: "nat \<Rightarrow> string"
  StatusNow :: string

text \<open>
  What the handler writes: \<open>writeResponse\<close> sets the content type, writes the status code
  and encodes the response.
\<close>

record HTTPRequest =
  Method :: string
  Body :: string

record HTTPResponse =
  ContentType :: string
  StatusCode :: int
  Payload :: JSONRPCResponse

definition StatusOK :: int where
  "StatusOK = 200"

definition writeResponse :: "JSONRPCResponse \<Rightarrow> int \<Rightarrow> HTTPResponse" where
  "writeResponse response statusCode =
     \<lparr>ContentType = ''application/json'', StatusCode = statusCode, Payload = response\<rparr>"

definition sendSuccess :: "string \<Rightarrow> TaskResult \<Rightarrow> HTTPResponse" where
  "sendSuccess id' result =
     writeResponse \<lparr>RespJSONRPC = ''2.0'', RespID = id', Result = Some result, Error = None\<rparr> StatusOK"

definition sendError :: "string \<Rightarrow> int \<Rightarrow> string \<Rightarrow> string \<Rightarrow> HTTPResponse" where
  "sendError id' code message data =
     writeResponse
       \<lparr>RespJSONRPC = ''2.0'', RespID = id', Result = None,
        Error = Some \<lparr>ErrorCode = code, ErrorMessage = message, ErrorData = data\<rparr>\<rparr>
       StatusOK"

definition extractMessage :: "'h Handler_scheme \<Rightarrow> (string \<times> any) list \<Rightarrow> Message result" where
  "extractMessage h params =
     (case asMap (map_of params ''message'') of
        None \<Rightarrow>
          Failed (NewAppError InvalidParams
            (''Missing or invalid '' @ [CHR 0x27] @ ''message'' @ [CHR 0x27] @ '' parameter'') None)
      | Some messageData \<Rightarrow>
          (case UnmarshalMessage h messageData of
             Inl err \<Rightarrow> Failed (NewAppError InvalidParams ''Invalid message format'' (Some err))
           | Inr msg \<Rightarrow> Ok msg))"

text \<open>The loop of \<open>extractUserInput\<close> over the parts, then the function.\<close>

fun firstText :: "MessagePart list \<Rightarrow> string" where
  "firstText [] = []"
| "firstText (part # parts) = (if PartKind part = KindText then Text part else firstText parts)"

definition extractUserInput :: "Message \<Rightarrow> string" where
  "extractUserInput msg = firstText (Parts msg)"

text \<open>
  \<open>extractPDFData\<close>. \<open>partPDFData\<close> is the body of its loop for a part of kind \<open>data\<close>: the
  bytes it returns, or \<open>None\<close> when the loop goes on to the next part. The result \<open>None\<close> of
  \<open>extractPDFData\<close> is Go's \<open>nil\<close>; the conversion \<open>[]byte(base64Data)\<close> gives the bytes of
  the string, a slice that is not \<open>nil\<close>.
\<close>

definition partPDFData :: "any \<Rightarrow> string option" where
  "partPDFData data =
     (case asMap (Some data) of
        Some dataMap \<Rightarrow>
          (case
             (case asString (map_of dataMap ''contentType'') of
                Some contentType \<Rightarrow>
                  if contentType = ''application/pdf'' then asString (map_of dataMap ''data'')
                  else None
              | None \<Rightarrow> None)
           of
             Some base64Data \<Rightarrow> Some base64Data
           | None \<Rightarrow> asBytes (map_of dataMap ''pdf''))
      | None \<Rightarrow> asBytes (Some data))"

fun firstPDFData :: "MessagePart list \<Rightarrow> string option" where
  "firstPDFData [] = None"
| "firstPDFData (part # parts) =
     (if PartKind part = KindData then
        (case partPDFData (Data part) of
           Some bytes \<Rightarrow> Some bytes
         | None \<Rightarrow> firstPDFData parts)
      else firstPDFData parts)"

definition extractPDFData :: "Message \<Rightarrow> string option" where
  "extractPDFData msg = firstPDFData (Parts msg)"

text \<open>
  \<open>buildTaskResult\<close>. The UUIDs are drawn in the order of the source: for the task id (only
  when the message has none), the message id, the artifact id and the context id.
\<close>

definition buildTaskResult :: "'h Handler_scheme \<Rightarrow> FlashcardSet \<Rightarrow> Message \<Rightarrow> TaskResult" where
  "buildTaskResult h flashcards userMsg =
     (let n = (if TaskID userMsg = [] then 1 else 0);
          taskID = (if TaskID userMsg = [] then ''task-'' @ take 8 (NewUUID h 0) else TaskID userMsg);
          responseText = FormatAsText flashcards;
          responseMsg =
            \<lparr>Kind = KindMessage, Role = RoleAgent,
             Parts = [\<lparr>PartKind = KindText, Text = responseText, Data = VNil\<rparr>],
             MessageID = ''msg-'' @ take 8 (NewUUID h n), TaskID = [], Metadata = VNil\<rparr>;
          artifacts =
            [\<lparr>ArtifactID = ''artifact-'' @ NewUUID h (n + 1), Name = ''flashcardSet'',
              ArtifactParts = [\<lparr>PartKind = KindData, Text = [], Data = VFlashcardSet flashcards\<rparr>]\<rparr>]
      in \<lparr>ID = taskID, ContextID = ''ctx-'' @ NewUUID h (n + 2),
          TaskStatus = \<lparr>State = StateCompleted, Timestamp = StatusNow h, StatusMessage = responseMsg\<rparr>,
          Artifacts = artifacts, History = [userMsg, responseMsg], TaskKind = ''task''\<rparr>)"

text \<open>\<open>processRequest\<close>: the three routes, then the task result.\<close>

definition processRequest :: "'h Handler_scheme \<Rightarrow> string \<Rightarrow> Message \<Rightarrow> TaskResult result" where
  "processRequest h input userMsg =
     (let pdfURL = ExtractPDFURL input;
          generated =
            (if pdfURL \<noteq> [] then fst (GenerateFromURL h pdfURL)
             else
               (case extractPDFData userMsg of
                  Some pdfData \<Rightarrow> fst (GenerateFromPDFData h pdfData)
                | None \<Rightarrow> fst (GenerateFromText h input)))
      in case generated of
           Failed err \<Rightarrow> Failed err
         | Panic \<Rightarrow> Panic
         | Ok flashcards \<Rightarrow> Ok (buildTaskResult h flashcards userMsg))"

text \<open>
  \<open>handleMessageSend\<close> and \<open>ServeHTTP\<close> give the response written, \<open>None\<close> when the handler
  panics before it writes one.
\<close>

definition handleMessageSend :: "'h Handler_scheme \<Rightarrow> JSONRPCRequest \<Rightarrow> HTTPResponse option" where
  "handleMessageSend h req =
     (case extractMessage h (Params req) of
        Failed appErr \<Rightarrow>
          Some (sendError (ReqID req) (Code appErr) (Message appErr) (ErrorText h appErr))
      | Panic \<Rightarrow> None
      | Ok msg \<Rightarrow>
          (let userInput = extractUserInput msg in
           if userInput = [] then
             Some (sendError (ReqID req) InvalidParams ''Invalid params''
               ''No text content found in message'')
           else
             (case processRequest h userInput msg of
                Failed appErr \<Rightarrow>
                  Some (sendError (ReqID req) (Code appErr) (Message appErr) (ErrorText h appErr))
              | Panic \<Rightarrow> None
              | Ok result \<Rightarrow> Some (sendSuccess (ReqID req) result))))"

definition ServeHTTP :: "'h Handler_scheme \<Rightarrow> HTTPRequest \<Rightarrow> HTTPResponse option" where
  "ServeHTTP h r =
     (if Method r \<noteq> ''POST'' then
        Some (sendError ''unknown'' InvalidRequest ''Only POST method is supported'' [])
      else
        (case DecodeRequest h (Body r) of
           Inl err \<Rightarrow> Some (sendError [] ParseError ''Parse error'' err)
         | Inr req \<Rightarrow>
             if ReqJSONRPC req \<noteq> ''2.0'' then
               Some (sendError (ReqID req) InvalidRequest ''Invalid Request'' ''jsonrpc must be 2.0'')
             else if ReqMethod req = ''message/send'' then handleMessageSend h req
             else
               Some (sendError (ReqID req) MethodNotFound ''Method not found''
                 (''Method '' @ ReqMethod req @ '' not supported''))))"

section \<open>The parser as the specification words it\<close>

text \<open>
  The field of one block for a prefix: the lines are trimmed, those with the prefix are kept,
  and the last of them gives the value, the trimmed rest after the prefix; the value is
  empty when no line has the prefix.
\<close>

definition specField :: "string \<Rightarrow> string list \<Rightarrow> string" where
  "specField p lines =
     (let matching = filter (\<lambda>l. prefix p l) (map TrimSpace lines)
      in if matching = [] then [] else TrimSpace (drop (length p) (last matching)))"

text \<open>The card of one block, if it has one: an empty list or a list of one card.\<close>

definition specCard :: "string \<Rightarrow> Flashcard list" where
  "specCard block =
     (let lines = Split block NL;
          q = specField ''Q:'' lines;
          a = specField ''A:'' lines;
          t = specField ''T:'' lines
      in if q \<noteq> [] \<and> a \<noteq> [] then
           [\<lparr>Question = q, Answer = a, Topic = (if t = [] then ''Concept'' else t)\<rparr>]
         else [])"

text \<open>
  The response is split at blank lines, the blocks without \<open>Q:\<close> or without \<open>A:\<close> are
  discarded, and the cards of the others are collected in the order of the blocks.
\<close>

definition specParse :: "string \<Rightarrow> Flashcard list" where
  "specParse response =
     concat (map specCard
       (filter (\<lambda>block. Contains block ''Q:'' \<and> Contains block ''A:'')
         (Split response (NL @ NL))))"

text \<open>The field a block gives when the variable held \<open>old\<close> before its lines were read.\<close>

definition fieldFrom :: "string \<Rightarrow> string \<Rightarrow> string list \<Rightarrow> string" where
  "fieldFrom old p lines =
     (let matching = filter (\<lambda>l. prefix p l) (map TrimSpace lines)
      in if matching = [] then old else TrimSpace (drop (length p) (last matching)))"

text \<open>
  The URL of a PDF in a text, as the specification words it: \<open>sub\<close> occurs in \<open>s\<close> up to the
  case of letters when, at some position, the bytes of \<open>s\<close> are those of \<open>sub\<close> once both are
  lowered; the tokens between white space are taken in order, the characters \<open>.\<close>, \<open>,\<close> and
  \<open>;\<close> are stripped from the end of each, and the first stripped token that starts with
  \<open>http\<close> and contains \<open>.pdf\<close> up to case is the result, the empty string when there is none.
\<close>

definition specContainsFold :: "string \<Rightarrow> string \<Rightarrow> bool" where
  "specContainsFold s sub =
     list_ex (\<lambda>i. map toLowerByte (take (length sub) (drop i s)) = map toLowerByte sub)
       [0..<Suc (length s)]"

definition specExtractPDFURL :: "string \<Rightarrow> string" where
  "specExtractPDFURL input =
     (case find (\<lambda>w. prefix ''http'' w \<and> specContainsFold w ''.pdf'')
             (map (\<lambda>w. TrimRight w ''.,;'') (Fields input)) of
        None \<Rightarrow> []
      | Some w \<Rightarrow> w)"

section \<open>The rendered text, block by block\<close>

text \<open>
  The bytes that occur in the encoding of some white space rune; the bytes that can start
  the UTF-8 encoding of a rune (all but the continuation bytes 0x80 to 0xBF); and the length
  of the encoding of a white space rune, as its first byte tells it.
\<close>

definition leadByte :: "char \<Rightarrow> bool" where
  "leadByte c = ((of_char c :: nat) < 128 \<or> 192 \<le> (of_char c :: nat))"

definition runeLength :: "char \<Rightarrow> nat" where
  "runeLength c = (if (of_char c :: nat) < 128 then 1 else if (of_char c :: nat) < 224 then 2 else 3)"

definition spaceByte :: "char \<Rightarrow> bool" where
  "spaceByte c = (c \<in> set (concat spaceRunes))"

text \<open>
  A text that can stand before a blank line as one block: it has no two newlines in a row
  and does not end with a newline.
\<close>

fun blockLike :: "string \<Rightarrow> bool" where
  "blockLike [] = True"
| "blockLike [c] = (c \<noteq> CHR 0x0A)"
| "blockLike (c # d # s) = ((c \<noteq> CHR 0x0A \<or> d \<noteq> CHR 0x0A) \<and> blockLike (d # s))"

text \<open>
  What \<open>FormatAsText\<close> writes for the card with index \<open>i\<close>, without the blank line that
  ends it: the label line, the question line and the answer line. \<open>cardBlocks\<close> are the
  blocks of the cards from index \<open>i\<close> on, followed by the empty block after the last blank
  line.
\<close>

definition cardLabel :: "nat \<Rightarrow> Flashcard \<Rightarrow> string" where
  "cardLabel i c =
     ''**Card '' @ formatInt (int i + 1) @ ''**'' @
     (if Topic c \<noteq> [] then '' ('' @ Topic c @ '')'' else [])"

definition cardBlock :: "nat \<Rightarrow> Flashcard \<Rightarrow> string" where
  "cardBlock i c = cardLabel i c @ NL @ ''Q: '' @ Question c @ NL @ ''A: '' @ Answer c"

fun cardBlocks :: "nat \<Rightarrow> Flashcard list \<Rightarrow> string list" where
  "cardBlocks i [] = [[]]"
| "cardBlocks i (c # cards) = cardBlock i c # cardBlocks (i + 1) cards"

text \<open>
  A card whose rendered block the parser reads as one card: question, answer and topic hold
  no newline, and question and answer are not empty once trimmed. \<open>readBack\<close> is the card
  the parser then makes of it.
\<close>

definition plainCard :: "Flashcard \<Rightarrow> bool" where
  "plainCard c \<longleftrightarrow>
     CHR 0x0A \<notin> set (Question c) \<and> CHR 0x0A \<notin> set (Answer c) \<and> CHR 0x0A \<notin> set (Topic c) \<and>
     TrimSpace (Question c) \<noteq> [] \<and> TrimSpace (Answer c) \<noteq> []"

definition readBack :: "Flashcard \<Rightarrow> Flashcard" where
  "readBack c =
     \<lparr>Question = TrimSpace (Question c), Answer = TrimSpace (Answer c), Topic = ''Concept''\<rparr>"

section \<open>Example collaborators\<close>

text \<open>A model that answers with two blocks, and one that answers without any card.\<close>

definition exampleWorld :: World where
  "exampleWorld =
     \<lparr>GenerateContent = (\<lambda>p. GenerateResponse
        [Some [''Q: What is 2+2?'' @ NL @ ''A: 4'' @ NL @ ''T: Math'' @ NL @ NL @
               ''Q: Capital of France?'' @ NL @ ''A: Paris'']]),
      HTTPGet = (\<lambda>u. GetError ''offline''),
      NewPDFReader = (\<lambda>d. Inl ''unreadable''),
      CreatedAtNow = ''2025-01-01T00:00:00Z''\<rparr>"

definition silentWorld :: World where
  "silentWorld =
     \<lparr>GenerateContent = (\<lambda>p. GenerateResponse [Some [''I cannot help with that.'']]),
      HTTPGet = (\<lambda>u. GetError ''offline''),
      NewPDFReader = (\<lambda>d. Inl ''unreadable''),
      CreatedAtNow = ''2025-01-01T00:00:00Z''\<rparr>"

text \<open>
  Messages: one whose first text part is empty, one with a single text part, and one with
  two uploaded PDFs. A handler whose decoder knows three bodies and whose model answers with
  one card.
\<close>

definition exampleMessage :: Message where
  "exampleMessage =
     \<lparr>Kind = ''message'', Role = ''user'',
      Parts =
        [\<lparr>PartKind = ''data'', Text = [], Data = VString ''note''\<rparr>,
         \<lparr>PartKind = ''text'', Text = [], Data = VNil\<rparr>,
         \<lparr>PartKind = ''text'', Text = ''Generate flashcards'', Data = VNil\<rparr>],
      MessageID = ''msg-001'', TaskID = ''task-001'', Metadata = VNil\<rparr>"

definition plainMessage :: Message where
  "plainMessage =
     \<lparr>Kind = ''message'', Role = ''user'',
      Parts = [\<lparr>PartKind = ''text'', Text = ''Generate flashcards'', Data = VNil\<rparr>],
      MessageID = ''msg-001'', TaskID = ''task-001'', Metadata = VNil\<rparr>"

definition twoUploads :: Message where
  "twoUploads =
     \<lparr>Kind = ''message'', Role = ''user'',
      Parts =
        [\<lparr>PartKind = ''text'', Text = ''Make flashcards from my files'', Data = VNil\<rparr>,
         \<lparr>PartKind = ''data'', Text = [],
          Data = VMap [(''contentType'', VString ''application/pdf''), (''data'', VString ''JVBERi0x'')]\<rparr>,
         \<lparr>PartKind = ''data'', Text = [],
          Data = VMap [(''contentType'', VString ''application/pdf''), (''data'', VString ''JVBERi0y'')]\<rparr>],
      MessageID = ''msg-002'', TaskID = [], Metadata = VNil\<rparr>"

definition exampleHandler :: Handler where
  "exampleHandler =
     \<lparr>GenerateContent = (\<lambda>p. GenerateResponse
        [Some [''Q: What is 2+2?'' @ NL @ ''A: 4'' @ NL @ ''T: Math'']]),
      HTTPGet = (\<lambda>u. GetError ''offline''),
      NewPDFReader = (\<lambda>d. Inl ''unreadable''),
      CreatedAtNow = ''2025-01-01T00:00:00Z'',
      DecodeRequest = (\<lambda>body.
        if body = ''{invalid json}'' then Inl ''invalid character''
        else if body = ''plain'' then
          Inr \<lparr>ReqJSONRPC = ''2.0'', ReqID = ''request-002'', ReqMethod = ''message/send'',
               Params = [(''message'', VMap [(''taskId'', VString ''task-001'')])]\<rparr>
        else
          Inr \<lparr>ReqJSONRPC = ''2.0'', ReqID = ''request-001'', ReqMethod = body,
               Params = [(''message'', VMap [])]\<rparr>),
      UnmarshalMessage = (\<lambda>m. Inr (if m = [] then exampleMessage else plainMessage)),
      ErrorText = (\<lambda>e. Message e),
      NewUUID = (\<lambda>n. ''123e4567-e89b-12d3-a456-426614174000''),
      StatusNow = ''2025-01-01T00:00:01Z''\<rparr>"

text \<open>
  Flashcard sets: one as the parser makes them, one whose question starts with a space, and
  one whose title has lines of its own.
\<close>

definition exampleSet :: FlashcardSet where
  "exampleSet =
     \<lparr>Title = ''Study Flashcards'',
      Flashcards =
        [\<lparr>Question = ''What is 2+2?'', Answer = ''4'', Topic = ''Math''\<rparr>,
         \<lparr>Question = ''Capital of France?'', Answer = ''Paris'', Topic = []\<rparr>],
      Source = ''user_input'', CreatedAt = ''2025-01-01T00:00:00Z'', TotalCards = 2\<rparr>"

definition paddedSet :: FlashcardSet where
  "paddedSet =
     \<lparr>Title = ''Study Flashcards'',
      Flashcards = [\<lparr>Question = '' What is 2+2?'', Answer = ''4'', Topic = ''Math''\<rparr>],
      Source = ''user_input'', CreatedAt = ''2025-01-01T00:00:00Z'', TotalCards = 1\<rparr>"

definition titledSet :: FlashcardSet where
  "titledSet =
     \<lparr>Title = ''Notes'' @ NL @ ''Q: extra'' @ NL @ ''A: card'',
      Flashcards = [\<lparr>Question = ''What is 2+2?'', Answer = ''4'', Topic = ''Math''\<rparr>],
      Source = ''user_input'', CreatedAt = ''2025-01-01T00:00:00Z'', TotalCards = 1\<rparr>"

section \<open>The parser meets its specification\<close>

lemma fieldFrom_Nil: "fieldFrom old p [] = old"
  by (simp add: fieldFrom_def)

lemma fieldFrom_Cons:
  "fieldFrom old p (l # ls) =
     fieldFrom (if prefix p (TrimSpace l) then TrimSpace (drop (length p) (TrimSpace l)) else old) p ls"
  by (simp add: fieldFrom_def Let_def)

lemma specField_fieldFrom: "specField p ls = fieldFrom [] p ls"
  by (simp add: specField_def fieldFrom_def)

text \<open>The loop over the lines computes the three fields, whatever the variables held.\<close>

lemma scanLines_fieldFrom:
  "scanLines (q, a, t) ls = (fieldFrom q ''Q:'' ls, fieldFrom a ''A:'' ls, fieldFrom t ''T:'' ls)"
proof (induction ls arbitrary: q a t)
  case Nil
  show ?case by (simp add: fieldFrom_Nil)
next
  case (Cons l ls)
  define r where "r = TrimSpace l"
  have excl: "prefix ''Q:'' r \<Longrightarrow> \<not> prefix ''A:'' r \<and> \<not> prefix ''T:'' r"
    "prefix ''A:'' r \<Longrightarrow> \<not> prefix ''T:'' r"
    by (cases r; simp; fail)+
  have step: "fieldFrom old p (l # ls) =
      fieldFrom (if prefix p r then TrimSpace (drop (length p) r) else old) p ls" for old p
    by (simp add: fieldFrom_Cons r_def)
  consider (Q) "prefix ''Q:'' r" | (A) "\<not> prefix ''Q:'' r" "prefix ''A:'' r"
    | (T) "\<not> prefix ''Q:'' r" "\<not> prefix ''A:'' r" "prefix ''T:'' r"
    | (none) "\<not> prefix ''Q:'' r" "\<not> prefix ''A:'' r" "\<not> prefix ''T:'' r"
    by blast
  then show ?case
  proof cases
    case Q
    with excl show ?thesis
      by (simp add: Cons.IH step HasPrefix_def TrimPrefix_def flip: r_def)
  next
    case A
    with excl show ?thesis
      by (simp add: Cons.IH step HasPrefix_def TrimPrefix_def flip: r_def)
  next
    case T
    then show ?thesis
      by (simp add: Cons.IH step HasPrefix_def TrimPrefix_def flip: r_def)
  next
    case none
    then show ?thesis
      by (simp add: Cons.IH step HasPrefix_def TrimPrefix_def flip: r_def)
  qed
qed

text \<open>The loop over the blocks appends the cards of the blocks that pass the filter.\<close>

lemma scanCards_append:
  "scanCards acc blocks =
     acc @ concat (map specCard (filter (\<lambda>b. Contains b ''Q:'' \<and> Contains b ''A:'') blocks))"
proof (induction blocks arbitrary: acc)
  case Nil
  show ?case by simp
next
  case (Cons b bs)
  show ?case
    by (simp add: Cons.IH scanLines_fieldFrom specCard_def specField_fieldFrom Let_def)
qed

text \<open>
  C1. For every response of the model, the parser in \<open>generateFlashcards\<close> produces exactly
  the cards the specification describes: the response is split at two consecutive newlines;
  the blocks that do not contain both \<open>Q:\<close> and \<open>A:\<close> are discarded; in each other block the
  lines are trimmed, and the trimmed rest after \<open>Q:\<close>, \<open>A:\<close> or \<open>T:\<close> is the question, the
  answer or the topic, a later line overwriting an earlier one; a block gives a card only
  when question and answer are not empty, with the topic \<open>Concept\<close> when it is empty; and the
  cards come in the order of the blocks.
\<close>

theorem parseFlashcards_meets_spec: "parseFlashcards response = specParse response"
  by (simp add: parseFlashcards_def specParse_def scanCards_append)

theorem parseFlashcards_meets_spec_witness:
  "parseFlashcards
     (''Q: What is 2+2?'' @ NL @ ''A: 4'' @ NL @ ''T: Math'' @ NL @ NL @
      ''Q: no answer here'' @ NL @ NL @
      ''  A: Paris  '' @ NL @ ''Q: old'' @ NL @ ''Q: Capital of France?'') =
   [\<lparr>Question = ''What is 2+2?'', Answer = ''4'', Topic = ''Math''\<rparr>,
    \<lparr>Question = ''Capital of France?'', Answer = ''Paris'', Topic = ''Concept''\<rparr>]"
proof -
  have "specParse
     (''Q: What is 2+2?'' @ NL @ ''A: 4'' @ NL @ ''T: Math'' @ NL @ NL @
      ''Q: no answer here'' @ NL @ NL @
      ''  A: Paris  '' @ NL @ ''Q: old'' @ NL @ ''Q: Capital of France?'') =
   [\<lparr>Question = ''What is 2+2?'', Answer = ''4'', Topic = ''Math''\<rparr>,
    \<lparr>Question = ''Capital of France?'', Answer = ''Paris'', Topic = ''Concept''\<rparr>]"
    by code_simp
  then show ?thesis
    by (simp only: parseFlashcards_meets_spec)
qed

section \<open>Properties of the flashcard service\<close>

lemma generateFlashcards_Ok:
  "fst (generateFlashcards w text source) = Ok s \<Longrightarrow>
     TotalCards s = int (length (Flashcards s)) \<and> Flashcards s \<noteq> []"
  by (auto simp: generateFlashcards_def Let_def
      split: if_splits GenerateContentResult.splits list.splits option.splits)

lemma GenerateFromText_Ok:
  "fst (GenerateFromText w text) = Ok s \<Longrightarrow>
     TotalCards s = int (length (Flashcards s)) \<and> Flashcards s \<noteq> []"
  unfolding GenerateFromText_def by (rule generateFlashcards_Ok)

lemma GenerateFromPDFData_Ok:
  "fst (GenerateFromPDFData w pdfData) = Ok s \<Longrightarrow>
     TotalCards s = int (length (Flashcards s)) \<and> Flashcards s \<noteq> []"
  unfolding GenerateFromPDFData_def
  by (auto split: option.splits result.splits dest: generateFlashcards_Ok)

lemma GenerateFromURL_Ok:
  "fst (GenerateFromURL w url) = Ok s \<Longrightarrow>
     TotalCards s = int (length (Flashcards s)) \<and> Flashcards s \<noteq> []"
  unfolding GenerateFromURL_def
  by (auto split: option.splits result.splits dest: generateFlashcards_Ok)

lemma generateFlashcards_no_cards:
  assumes "TrimSpace text \<noteq> []"
    and "GenerateContent w (prompt text) = GenerateResponse (Some (part # parts) # candidates)"
    and "parseFlashcards part = []"
  shows "fst (generateFlashcards w text source) =
    Failed \<lparr>Code = - 32603,
      Message = ''could not generate meaningful flashcards from the content'', Cause = None\<rparr>"
  using assms by (simp add: generateFlashcards_def NewAppError_def InternalError_def)

text \<open>
  C2. Every set that \<open>generateFlashcards\<close> returns, and so every set that
  \<open>GenerateFromText\<close>, \<open>GenerateFromPDFData\<close> and \<open>GenerateFromURL\<close> return, has
  \<open>TotalCards\<close> equal to the number of its cards and has at least one card; and when the
  parser finds no card in the response of the model, the operation fails with the code
  -32603 and the message \<open>could not generate meaningful flashcards from the content\<close>.
\<close>

theorem returned_set_has_cards:
  "(fst (generateFlashcards w text source) = Ok s \<longrightarrow>
      TotalCards s = int (length (Flashcards s)) \<and> Flashcards s \<noteq> []) \<and>
   (fst (GenerateFromText w text) = Ok s \<longrightarrow>
      TotalCards s = int (length (Flashcards s)) \<and> Flashcards s \<noteq> []) \<and>
   (fst (GenerateFromPDFData w pdfData) = Ok s \<longrightarrow>
      TotalCards s = int (length (Flashcards s)) \<and> Flashcards s \<noteq> []) \<and>
   (fst (GenerateFromURL w url) = Ok s \<longrightarrow>
      TotalCards s = int (length (Flashcards s)) \<and> Flashcards s \<noteq> []) \<and>
   (TrimSpace text \<noteq> [] \<and>
    GenerateContent w (prompt text) = GenerateResponse (Some (part # parts) # candidates) \<and>
    parseFlashcards part = [] \<longrightarrow>
      fst (generateFlashcards w text source) =
        Failed \<lparr>Code = - 32603,
          Message = ''could not generate meaningful flashcards from the content'',
          Cause = None\<rparr>)"
  using generateFlashcards_Ok [of w "text" source s] GenerateFromText_Ok [of w "text" s]
    GenerateFromPDFData_Ok [of w pdfData s] GenerateFromURL_Ok [of w url s]
    generateFlashcards_no_cards [of "text" w part parts candidates source]
  by blast

theorem returned_set_has_cards_witness:
  "(\<exists>s. fst (generateFlashcards exampleWorld ''two plus two'' ''user_input'') = Ok s \<and>
      TotalCards s = 2 \<and> length (Flashcards s) = 2) \<and>
   fst (generateFlashcards silentWorld ''two plus two'' ''user_input'') =
     Failed \<lparr>Code = - 32603,
       Message = ''could not generate meaningful flashcards from the content'', Cause = None\<rparr>"
proof -
  define s where "s =
    \<lparr>Title = ''Study Flashcards'',
     Flashcards =
       [\<lparr>Question = ''What is 2+2?'', Answer = ''4'', Topic = ''Math''\<rparr>,
        \<lparr>Question = ''Capital of France?'', Answer = ''Paris'', Topic = ''Concept''\<rparr>],
     Source = ''user_input'', CreatedAt = ''2025-01-01T00:00:00Z'', TotalCards = 2\<rparr>"
  have ok: "fst (generateFlashcards exampleWorld ''two plus two'' ''user_input'') = Ok s"
    unfolding s_def by code_simp
  have "TotalCards s = int (length (Flashcards s)) \<and> Flashcards s \<noteq> []"
    using returned_set_has_cards [of exampleWorld "''two plus two''" "''user_input''" s] ok
    by blast
  moreover have "length (Flashcards s) = 2"
    by (simp add: s_def)
  ultimately have first: "\<exists>s. fst (generateFlashcards exampleWorld ''two plus two'' ''user_input'') = Ok s \<and>
      TotalCards s = 2 \<and> length (Flashcards s) = 2"
    using ok by auto
  have trimmed: "TrimSpace ''two plus two'' \<noteq> []"
    by code_simp
  have answer: "GenerateContent silentWorld (prompt ''two plus two'') =
      GenerateResponse (Some (''I cannot help with that.'' # []) # [])"
    by (simp add: silentWorld_def)
  have none: "parseFlashcards ''I cannot help with that.'' = []"
    by code_simp
  have "fst (generateFlashcards silentWorld ''two plus two'' ''user_input'') =
     Failed \<lparr>Code = - 32603,
       Message = ''could not generate meaningful flashcards from the content'', Cause = None\<rparr>"
    using returned_set_has_cards [of silentWorld "''two plus two''" "''user_input''" _ _ _
        "''I cannot help with that.''" "[]" "[]"] trimmed answer none
    by blast
  with first show ?thesis by blast
qed

text \<open>
  C4. When the trimmed source text is empty, the generation fails with the code -32602 and
  the message \<open>no content to generate flashcards from\<close>, and no prompt has been sent to the
  model: the list of the calls of \<open>GenerateContent\<close> is empty.
\<close>

theorem blank_text_rejected:
  "TrimSpace input = [] \<Longrightarrow>
     generateFlashcards w input source =
       (Failed \<lparr>Code = - 32602, Message = ''no content to generate flashcards from'',
          Cause = None\<rparr>, []) \<and>
     GenerateFromText w input =
       (Failed \<lparr>Code = - 32602, Message = ''no content to generate flashcards from'',
          Cause = None\<rparr>, [])"
  by (simp add: GenerateFromText_def generateFlashcards_def NewAppError_def InvalidParams_def)

theorem blank_text_rejected_witness:
  "TrimSpace [CHR 0x20, CHR 0x09, CHR 0xC2, CHR 0xA0, CHR 0x0A] = [] \<and>
   generateFlashcards exampleWorld [CHR 0x20, CHR 0x09, CHR 0xC2, CHR 0xA0, CHR 0x0A] ''user_input'' =
     (Failed \<lparr>Code = - 32602, Message = ''no content to generate flashcards from'',
        Cause = None\<rparr>, []) \<and>
   generateFlashcards exampleWorld ''two plus two'' ''user_input'' =
     (fst (generateFlashcards exampleWorld ''two plus two'' ''user_input''), [prompt ''two plus two''])"
proof -
  have blank: "TrimSpace [CHR 0x20, CHR 0x09, CHR 0xC2, CHR 0xA0, CHR 0x0A] = []"
    by code_simp
  have called: "generateFlashcards exampleWorld ''two plus two'' ''user_input'' =
     (fst (generateFlashcards exampleWorld ''two plus two'' ''user_input''), [prompt ''two plus two''])"
    by code_simp
  from blank blank_text_rejected [OF blank, of exampleWorld "''user_input''"] called
  show ?thesis by blast
qed

text \<open>
  C9. \<open>generateTitle\<close> maps every string that starts with \<open>http\<close> to \<open>Flashcards from PDF\<close>
  and every other string to \<open>Study Flashcards\<close>.
\<close>

theorem generateTitle_two_way:
  "generateTitle (''http'' @ rest) = ''Flashcards from PDF'' \<and>
   ((\<forall>rest. source \<noteq> ''http'' @ rest) \<longrightarrow> generateTitle source = ''Study Flashcards'')"
  by (auto simp: generateTitle_def HasPrefix_def prefix_def)

theorem generateTitle_two_way_witness:
  "generateTitle ''https://example.com/document.pdf'' = ''Flashcards from PDF'' \<and>
   generateTitle ''user_input'' = ''Study Flashcards''"
proof -
  have "\<forall>rest. ''user_input'' \<noteq> ''http'' @ rest" by simp
  with generateTitle_two_way [of "''s://example.com/document.pdf''" "''user_input''"]
  show ?thesis by simp
qed

section \<open>PDF URLs\<close>

lemma prefix_iff_take: "prefix xs ys \<longleftrightarrow> take (length xs) ys = xs"
  by (metis append_eq_conv_conj prefix_def take_is_prefix)

lemma Index_None_iff:
  "Index s sub = None \<longleftrightarrow> (\<forall>i \<le> length s. \<not> prefix sub (drop i s))"
proof (induction s)
  case Nil
  show ?case by simp
next
  case (Cons c s)
  have "(\<forall>i \<le> Suc (length s). \<not> prefix sub (drop i (c # s))) \<longleftrightarrow>
      \<not> prefix sub (c # s) \<and> (\<forall>i \<le> length s. \<not> prefix sub (drop i s))"
  proof
    assume h: "\<forall>i \<le> Suc (length s). \<not> prefix sub (drop i (c # s))"
    from h [rule_format, of 0] have "\<not> prefix sub (c # s)" by simp
    moreover have "\<not> prefix sub (drop i s)" if "i \<le> length s" for i
      using h [rule_format, of "Suc i"] that by simp
    ultimately show "\<not> prefix sub (c # s) \<and> (\<forall>i \<le> length s. \<not> prefix sub (drop i s))"
      by blast
  next
    assume h: "\<not> prefix sub (c # s) \<and> (\<forall>i \<le> length s. \<not> prefix sub (drop i s))"
    show "\<forall>i \<le> Suc (length s). \<not> prefix sub (drop i (c # s))"
    proof (intro allI impI)
      fix i assume "i \<le> Suc (length s)"
      then show "\<not> prefix sub (drop i (c # s))"
        using h by (cases i) auto
    qed
  qed
  with Cons.IH show ?case by simp
qed

lemma Contains_iff: "Contains s sub \<longleftrightarrow> (\<exists>i \<le> length s. take (length sub) (drop i s) = sub)"
  by (simp add: Contains_def Index_None_iff prefix_iff_take)

lemma list_ex_upto: "list_ex P [0..<Suc n] \<longleftrightarrow> (\<exists>i \<le> n. P i)"
  unfolding list_ex_iff set_upt by (metis atLeastLessThan_iff less_Suc_eq_le zero_le)

lemma Contains_ToLower:
  "Contains (ToLower s) (map toLowerByte sub) \<longleftrightarrow> specContainsFold s sub"
  unfolding specContainsFold_def list_ex_upto
  by (simp add: Contains_iff ToLower_def take_map drop_map)

lemma firstPDFWord_find:
  "firstPDFWord words =
     (case find (\<lambda>w. prefix ''http'' w \<and> specContainsFold w ''.pdf'')
             (map (\<lambda>w. TrimRight w ''.,;'') words) of
        None \<Rightarrow> []
      | Some w \<Rightarrow> w)"
proof (induction words)
  case Nil
  show ?case by simp
next
  case (Cons word words)
  have lowered: "map toLowerByte ''.pdf'' = ''.pdf''"
    by code_simp
  have "Contains (ToLower c) ''.pdf'' \<longleftrightarrow> specContainsFold c ''.pdf''" for c
    using Contains_ToLower [of c "''.pdf''"] by (simp only: lowered)
  with Cons.IH show ?case
    by (simp add: Let_def HasPrefix_def)
qed

text \<open>
  C3. For every text, \<open>ExtractPDFURL\<close> scans the tokens between white space in order, strips
  the trailing characters \<open>.\<close>, \<open>,\<close> and \<open>;\<close> from each and returns the first whose stripped
  form starts with \<open>http\<close> and contains \<open>.pdf\<close> up to case, the empty string when no token
  matches; on \<open>See https://example.com/first.pdf and https://example.com/second.pdf\<close> it
  returns \<open>https://example.com/first.pdf\<close>.
\<close>

theorem ExtractPDFURL_first_match:
  "ExtractPDFURL input = specExtractPDFURL input \<and>
   ExtractPDFURL ''See https://example.com/first.pdf and https://example.com/second.pdf'' =
     ''https://example.com/first.pdf''"
proof
  show "ExtractPDFURL input = specExtractPDFURL input"
    by (simp add: ExtractPDFURL_def specExtractPDFURL_def firstPDFWord_find)
  show "ExtractPDFURL ''See https://example.com/first.pdf and https://example.com/second.pdf'' =
     ''https://example.com/first.pdf''"
    by code_simp
qed

theorem ExtractPDFURL_first_match_witness:
  "ExtractPDFURL ''Check out https://example.com/File.PDF;, it is interesting.'' =
     ''https://example.com/File.PDF'' \<and>
   ExtractPDFURL ''Visit https://example.com for more info.'' = []"
proof -
  have "specExtractPDFURL ''Check out https://example.com/File.PDF;, it is interesting.'' =
     ''https://example.com/File.PDF''"
    by code_simp
  moreover have "specExtractPDFURL ''Visit https://example.com for more info.'' = []"
    by code_simp
  ultimately show ?thesis
    using ExtractPDFURL_first_match [of "''Check out https://example.com/File.PDF;, it is interesting.''"]
      ExtractPDFURL_first_match [of "''Visit https://example.com for more info.''"]
    by simp
qed

section \<open>Properties of the handler\<close>

lemma sendError_fields:
  "StatusCode (sendError i c m d) = 200" "RespID (Payload (sendError i c m d)) = i"
  "RespJSONRPC (Payload (sendError i c m d)) = ''2.0''"
  "Result (Payload (sendError i c m d)) = None"
  "Error (Payload (sendError i c m d)) = Some \<lparr>ErrorCode = c, ErrorMessage = m, ErrorData = d\<rparr>"
  by (simp_all add: sendError_def writeResponse_def StatusOK_def)

lemma sendSuccess_fields:
  "StatusCode (sendSuccess i t) = 200" "RespID (Payload (sendSuccess i t)) = i"
  "RespJSONRPC (Payload (sendSuccess i t)) = ''2.0''"
  "Result (Payload (sendSuccess i t)) = Some t"
  "Error (Payload (sendSuccess i t)) = None"
  by (simp_all add: sendSuccess_def writeResponse_def StatusOK_def)

lemma handleMessageSend_envelope:
  "handleMessageSend h req = Some resp \<Longrightarrow>
     StatusCode resp = 200 \<and> RespJSONRPC (Payload resp) = ''2.0'' \<and> RespID (Payload resp) = ReqID req"
  by (auto simp: handleMessageSend_def Let_def sendError_fields sendSuccess_fields
      split: result.splits if_splits)

text \<open>
  C7, as the code has it. Every response that \<open>ServeHTTP\<close> writes, success or error, has the
  HTTP status 200 and the JSON-RPC version 2.0; its id is the id of the request once the body
  is decoded, the empty string when the body cannot be decoded, and the literal \<open>unknown\<close>
  when the verb is not POST. A verb other than POST gives the error -32600 with the message
  \<open>Only POST method is supported\<close>.
\<close>

theorem ServeHTTP_envelope:
  "(ServeHTTP h r = Some resp \<longrightarrow>
      StatusCode resp = 200 \<and> RespJSONRPC (Payload resp) = ''2.0'' \<and>
      RespID (Payload resp) =
        (if Method r \<noteq> ''POST'' then ''unknown''
         else case DecodeRequest h (Body r) of Inl err \<Rightarrow> [] | Inr req \<Rightarrow> ReqID req)) \<and>
   (Method r \<noteq> ''POST'' \<longrightarrow>
      ServeHTTP h r =
        Some \<lparr>ContentType = ''application/json'', StatusCode = 200,
          Payload = \<lparr>RespJSONRPC = ''2.0'', RespID = ''unknown'', Result = None,
            Error = Some \<lparr>ErrorCode = - 32600, ErrorMessage = ''Only POST method is supported'',
              ErrorData = []\<rparr>\<rparr>\<rparr>)"
proof (rule conjI; rule impI)
  assume "ServeHTTP h r = Some resp"
  then show "StatusCode resp = 200 \<and> RespJSONRPC (Payload resp) = ''2.0'' \<and>
      RespID (Payload resp) =
        (if Method r \<noteq> ''POST'' then ''unknown''
         else case DecodeRequest h (Body r) of Inl err \<Rightarrow> [] | Inr req \<Rightarrow> ReqID req)"
    by (auto simp: ServeHTTP_def sendError_fields
        split: if_splits sum.splits dest: handleMessageSend_envelope)
next
  assume "Method r \<noteq> ''POST''"
  then show "ServeHTTP h r =
        Some \<lparr>ContentType = ''application/json'', StatusCode = 200,
          Payload = \<lparr>RespJSONRPC = ''2.0'', RespID = ''unknown'', Result = None,
            Error = Some \<lparr>ErrorCode = - 32600, ErrorMessage = ''Only POST method is supported'',
              ErrorData = []\<rparr>\<rparr>\<rparr>"
    by (simp add: ServeHTTP_def sendError_def writeResponse_def StatusOK_def InvalidRequest_def)
qed

text \<open>
  The claim C7 says that the id is the empty string on a verb other than POST. On a GET
  request the handler answers with the id \<open>unknown\<close> (line 31 of \<open>a2a_handler.go\<close>).
\<close>

theorem non_POST_id_counterexample:
  "ServeHTTP exampleHandler \<lparr>Method = ''GET'', Body = []\<rparr> =
     Some \<lparr>ContentType = ''application/json'', StatusCode = 200,
       Payload = \<lparr>RespJSONRPC = ''2.0'', RespID = ''unknown'', Result = None,
         Error = Some \<lparr>ErrorCode = - 32600, ErrorMessage = ''Only POST method is supported'',
           ErrorData = []\<rparr>\<rparr>\<rparr> \<and>
   RespID (Payload (the (ServeHTTP exampleHandler \<lparr>Method = ''GET'', Body = []\<rparr>))) \<noteq> []"
  by (simp add: ServeHTTP_def sendError_def writeResponse_def StatusOK_def InvalidRequest_def)

theorem ServeHTTP_envelope_witness:
  "(\<exists>resp. ServeHTTP exampleHandler \<lparr>Method = ''GET'', Body = []\<rparr> = Some resp \<and>
      StatusCode resp = 200 \<and> RespID (Payload resp) = ''unknown'') \<and>
   (\<exists>resp. ServeHTTP exampleHandler \<lparr>Method = ''POST'', Body = ''{invalid json}''\<rparr> = Some resp \<and>
      StatusCode resp = 200 \<and> RespID (Payload resp) = []) \<and>
   (\<exists>resp. ServeHTTP exampleHandler \<lparr>Method = ''POST'', Body = ''tasks/get''\<rparr> = Some resp \<and>
      StatusCode resp = 200 \<and> RespID (Payload resp) = ''request-001'')"
proof -
  have get: "Method \<lparr>Method = ''GET'', Body = []\<rparr> \<noteq> ''POST''"
    by simp
  from ServeHTTP_envelope [of exampleHandler "\<lparr>Method = ''GET'', Body = []\<rparr>"] get
  obtain r1 where r1: "ServeHTTP exampleHandler \<lparr>Method = ''GET'', Body = []\<rparr> = Some r1"
    by blast
  from ServeHTTP_envelope [of exampleHandler "\<lparr>Method = ''GET'', Body = []\<rparr>" r1] r1
  have a: "StatusCode r1 = 200 \<and> RespID (Payload r1) = ''unknown''"
    by simp
  obtain r2 where r2: "ServeHTTP exampleHandler \<lparr>Method = ''POST'', Body = ''{invalid json}''\<rparr> = Some r2"
    by (simp add: ServeHTTP_def exampleHandler_def)
  from ServeHTTP_envelope [of exampleHandler "\<lparr>Method = ''POST'', Body = ''{invalid json}''\<rparr>" r2] r2
  have b: "StatusCode r2 = 200 \<and> RespID (Payload r2) = []"
    by (simp add: exampleHandler_def)
  obtain r3 where r3: "ServeHTTP exampleHandler \<lparr>Method = ''POST'', Body = ''tasks/get''\<rparr> = Some r3"
    by (simp add: ServeHTTP_def exampleHandler_def)
  from ServeHTTP_envelope [of exampleHandler "\<lparr>Method = ''POST'', Body = ''tasks/get''\<rparr>" r3] r3
  have c: "StatusCode r3 = 200 \<and> RespID (Payload r3) = ''request-001''"
    by (simp add: exampleHandler_def)
  from r1 a r2 b r3 c show ?thesis by blast
qed

lemma firstText_empty:
  "list_all (\<lambda>p. PartKind p \<noteq> ''text'') before \<Longrightarrow> PartKind part = ''text'' \<Longrightarrow>
     firstText (before @ part # after) = Text part"
  by (induction before) (simp_all add: KindText_def)

text \<open>
  C10. When the first part of kind \<open>text\<close> of the message carries the empty string,
  \<open>message/send\<close> fails with the code -32602 and the data \<open>No text content found in message\<close>,
  whatever parts follow it: a later text part is never read.
\<close>

theorem empty_first_text_part:
  assumes "Method r = ''POST''"
    and "DecodeRequest h (Body r) = Inr req"
    and "ReqJSONRPC req = ''2.0''"
    and "ReqMethod req = ''message/send''"
    and "extractMessage h (Params req) = Ok msg"
    and "Parts msg = before @ part # after"
    and "list_all (\<lambda>p. PartKind p \<noteq> ''text'') before"
    and "PartKind part = ''text''"
    and "Text part = []"
  shows "ServeHTTP h r =
     Some \<lparr>ContentType = ''application/json'', StatusCode = 200,
       Payload = \<lparr>RespJSONRPC = ''2.0'', RespID = ReqID req, Result = None,
         Error = Some \<lparr>ErrorCode = - 32602, ErrorMessage = ''Invalid params'',
           ErrorData = ''No text content found in message''\<rparr>\<rparr>\<rparr>"
proof -
  have "extractUserInput msg = []"
    using assms(6-9) by (simp add: extractUserInput_def firstText_empty)
  with assms(5) have "handleMessageSend h req =
      Some (sendError (ReqID req) InvalidParams ''Invalid params'' ''No text content found in message'')"
    by (simp add: handleMessageSend_def)
  with assms(1-4) show ?thesis
    by (simp add: ServeHTTP_def sendError_def writeResponse_def StatusOK_def InvalidParams_def)
qed

theorem empty_first_text_part_witness:
  "ServeHTTP exampleHandler \<lparr>Method = ''POST'', Body = ''message/send''\<rparr> =
     Some \<lparr>ContentType = ''application/json'', StatusCode = 200,
       Payload = \<lparr>RespJSONRPC = ''2.0'', RespID = ''request-001'', Result = None,
         Error = Some \<lparr>ErrorCode = - 32602, ErrorMessage = ''Invalid params'',
           ErrorData = ''No text content found in message''\<rparr>\<rparr>\<rparr> \<and>
   Parts exampleMessage =
     [\<lparr>PartKind = ''data'', Text = [], Data = VString ''note''\<rparr>] @
     \<lparr>PartKind = ''text'', Text = [], Data = VNil\<rparr> #
     [\<lparr>PartKind = ''text'', Text = ''Generate flashcards'', Data = VNil\<rparr>]"
proof -
  define req where "req =
    \<lparr>ReqJSONRPC = ''2.0'', ReqID = ''request-001'', ReqMethod = ''message/send'',
     Params = [(''message'', VMap [])]\<rparr>"
  have 1: "Method \<lparr>Method = ''POST'', Body = ''message/send''\<rparr> = ''POST''"
    by simp
  have 2: "DecodeRequest exampleHandler (Body \<lparr>Method = ''POST'', Body = ''message/send''\<rparr>) = Inr req"
    by (simp add: exampleHandler_def req_def)
  have 3: "ReqJSONRPC req = ''2.0''" and 4: "ReqMethod req = ''message/send''"
    by (simp_all add: req_def)
  have 5: "extractMessage exampleHandler (Params req) = Ok exampleMessage"
    by (simp add: extractMessage_def exampleHandler_def req_def)
  have 6: "Parts exampleMessage =
     [\<lparr>PartKind = ''data'', Text = [], Data = VString ''note''\<rparr>] @
     \<lparr>PartKind = ''text'', Text = [], Data = VNil\<rparr> #
     [\<lparr>PartKind = ''text'', Text = ''Generate flashcards'', Data = VNil\<rparr>]"
    by (simp add: exampleMessage_def)
  have 7: "list_all (\<lambda>p. PartKind p \<noteq> ''text'') [\<lparr>PartKind = ''data'', Text = [], Data = VString ''note''\<rparr>]"
    by simp
  have 8: "PartKind \<lparr>PartKind = ''text'', Text = [], Data = VNil\<rparr> = ''text''"
    and 9: "Text \<lparr>PartKind = ''text'', Text = [], Data = VNil\<rparr> = []"
    by simp_all
  from empty_first_text_part [OF 1 2 3 4 5 6 7 8 9] 6 show ?thesis
    by (simp add: req_def)
qed

lemma buildTaskResult_fields:
  "ID (buildTaskResult h f m) = (if TaskID m \<noteq> [] then TaskID m else ''task-'' @ take 8 (NewUUID h 0))"
  "State (TaskStatus (buildTaskResult h f m)) = ''completed''"
  "History (buildTaskResult h f m) = [m, StatusMessage (TaskStatus (buildTaskResult h f m))]"
  "Role (StatusMessage (TaskStatus (buildTaskResult h f m))) = ''agent''"
  "Parts (StatusMessage (TaskStatus (buildTaskResult h f m))) =
     [\<lparr>PartKind = ''text'', Text = FormatAsText f, Data = VNil\<rparr>]"
  "Artifacts (buildTaskResult h f m) =
     [\<lparr>ArtifactID = ''artifact-'' @ NewUUID h (if TaskID m = [] then 2 else 1), Name = ''flashcardSet'',
       ArtifactParts = [\<lparr>PartKind = ''data'', Text = [], Data = VFlashcardSet f\<rparr>]\<rparr>]"
  by (simp_all add: buildTaskResult_def Let_def StateCompleted_def RoleAgent_def KindText_def
      KindData_def numeral_2_eq_2)

lemma processRequest_Ok:
  "processRequest h input userMsg = Ok result \<Longrightarrow>
     \<exists>flashcards. result = buildTaskResult h flashcards userMsg \<and>
       (fst (GenerateFromURL h (ExtractPDFURL input)) = Ok flashcards \<or>
        (\<exists>pdfData. fst (GenerateFromPDFData h pdfData) = Ok flashcards) \<or>
        fst (GenerateFromText h input) = Ok flashcards)"
  by (auto simp: processRequest_def Let_def split: if_splits option.splits result.splits)

lemma handleMessageSend_success:
  "handleMessageSend h req = Some resp \<Longrightarrow> Result (Payload resp) = Some result \<Longrightarrow>
     \<exists>userMsg. extractMessage h (Params req) = Ok userMsg \<and>
       processRequest h (extractUserInput userMsg) userMsg = Ok result"
  by (auto simp: handleMessageSend_def Let_def sendError_fields sendSuccess_fields
      split: result.splits if_splits)

lemma ServeHTTP_success:
  "ServeHTTP h r = Some resp \<Longrightarrow> Result (Payload resp) = Some result \<Longrightarrow>
     \<exists>req. DecodeRequest h (Body r) = Inr req \<and> handleMessageSend h req = Some resp"
  by (auto simp: ServeHTTP_def sendError_fields split: if_splits sum.splits)

text \<open>
  C6. In every successful response the task result has the task id of the user's message
  when that is not empty and an id made of a new UUID otherwise, the state \<open>completed\<close>, the
  history made of the user's message followed by the new agent message (whose only part is
  the rendered text of the set), and exactly one artifact, named \<open>flashcardSet\<close>, whose only
  part carries the generated set as its data.
\<close>

theorem task_result_assembled:
  assumes "ServeHTTP h r = Some resp" and "Result (Payload resp) = Some result"
  shows "\<exists>req userMsg flashcards.
     DecodeRequest h (Body r) = Inr req \<and> extractMessage h (Params req) = Ok userMsg \<and>
     (fst (GenerateFromURL h (ExtractPDFURL (extractUserInput userMsg))) = Ok flashcards \<or>
      (\<exists>pdfData. fst (GenerateFromPDFData h pdfData) = Ok flashcards) \<or>
      fst (GenerateFromText h (extractUserInput userMsg)) = Ok flashcards) \<and>
     ID result = (if TaskID userMsg \<noteq> [] then TaskID userMsg else ''task-'' @ take 8 (NewUUID h 0)) \<and>
     State (TaskStatus result) = ''completed'' \<and>
     History result = [userMsg, StatusMessage (TaskStatus result)] \<and>
     Role (StatusMessage (TaskStatus result)) = ''agent'' \<and>
     Parts (StatusMessage (TaskStatus result)) =
       [\<lparr>PartKind = ''text'', Text = FormatAsText flashcards, Data = VNil\<rparr>] \<and>
     (\<exists>artifactID. Artifacts result =
       [\<lparr>ArtifactID = artifactID, Name = ''flashcardSet'',
         ArtifactParts = [\<lparr>PartKind = ''data'', Text = [], Data = VFlashcardSet flashcards\<rparr>]\<rparr>])"
proof -
  from ServeHTTP_success [OF assms] obtain req
    where req: "DecodeRequest h (Body r) = Inr req" "handleMessageSend h req = Some resp"
    by blast
  from handleMessageSend_success [OF req(2) assms(2)] obtain userMsg
    where msg: "extractMessage h (Params req) = Ok userMsg"
      "processRequest h (extractUserInput userMsg) userMsg = Ok result"
    by blast
  from processRequest_Ok [OF msg(2)] obtain flashcards
    where f: "result = buildTaskResult h flashcards userMsg"
      "fst (GenerateFromURL h (ExtractPDFURL (extractUserInput userMsg))) = Ok flashcards \<or>
        (\<exists>pdfData. fst (GenerateFromPDFData h pdfData) = Ok flashcards) \<or>
        fst (GenerateFromText h (extractUserInput userMsg)) = Ok flashcards"
    by blast
  show ?thesis
    apply (rule exI [of _ req], rule exI [of _ userMsg], rule exI [of _ flashcards])
    using req(1) msg(1) f(2) unfolding f(1) buildTaskResult_fields
    by blast
qed

theorem task_result_assembled_witness:
  "\<exists>resp result.
     ServeHTTP exampleHandler \<lparr>Method = ''POST'', Body = ''plain''\<rparr> = Some resp \<and>
     Result (Payload resp) = Some result \<and>
     ID result = ''task-001'' \<and> State (TaskStatus result) = ''completed'' \<and>
     History result = [plainMessage, StatusMessage (TaskStatus result)] \<and>
     length (Artifacts result) = 1 \<and> Name (hd (Artifacts result)) = ''flashcardSet''"
proof -
  define s where "s =
    \<lparr>Title = ''Study Flashcards'',
     Flashcards = [\<lparr>Question = ''What is 2+2?'', Answer = ''4'', Topic = ''Math''\<rparr>],
     Source = ''user_input'', CreatedAt = ''2025-01-01T00:00:00Z'', TotalCards = 1\<rparr>"
  define resp where "resp = sendSuccess ''request-002'' (buildTaskResult exampleHandler s plainMessage)"
  define result where "result = buildTaskResult exampleHandler s plainMessage"
  have served: "ServeHTTP exampleHandler \<lparr>Method = ''POST'', Body = ''plain''\<rparr> = Some resp"
    unfolding resp_def s_def by code_simp
  have res: "Result (Payload resp) = Some result"
    by (simp add: resp_def result_def sendSuccess_fields)
  have decoded: "DecodeRequest exampleHandler (Body \<lparr>Method = ''POST'', Body = ''plain''\<rparr>) =
      Inr \<lparr>ReqJSONRPC = ''2.0'', ReqID = ''request-002'', ReqMethod = ''message/send'',
            Params = [(''message'', VMap [(''taskId'', VString ''task-001'')])]\<rparr>"
    by (simp add: exampleHandler_def)
  have extracted: "extractMessage exampleHandler [(''message'', VMap [(''taskId'', VString ''task-001'')])] =
      Ok plainMessage"
    by (simp add: extractMessage_def exampleHandler_def)
  from task_result_assembled [OF served res] decoded extracted
  have "ID result = ''task-001'' \<and> State (TaskStatus result) = ''completed'' \<and>
     History result = [plainMessage, StatusMessage (TaskStatus result)] \<and>
     length (Artifacts result) = 1 \<and> Name (hd (Artifacts result)) = ''flashcardSet''"
    by (auto simp: plainMessage_def)
  with served res show ?thesis by blast
qed

lemma partPDFData_inline:
  "map_of dataMap ''contentType'' = Some (VString ''application/pdf'') \<Longrightarrow>
   map_of dataMap ''data'' = Some (VString base64Data) \<Longrightarrow>
     partPDFData (VMap dataMap) = Some base64Data"
  by (simp add: partPDFData_def)

lemma firstPDFData_first:
  "list_all (\<lambda>p. \<not> (PartKind p = ''data'' \<and> partPDFData (Data p) \<noteq> None)) before \<Longrightarrow>
   PartKind part = ''data'' \<Longrightarrow> partPDFData (Data part) = Some bytes \<Longrightarrow>
     firstPDFData (before @ part # after) = Some bytes"
  by (induction before) (auto simp: KindData_def)

text \<open>
  C8, as the code has it. \<open>extractPDFData\<close> returns at the first part of kind \<open>data\<close> that
  yields bytes. When that part is a map with the content type \<open>application/pdf\<close> and a string
  under \<open>data\<close>, the bytes are those of the string itself, nothing being decoded; and when
  the text holds no PDF URL, these bytes are what \<open>GenerateFromPDFData\<close> receives.
\<close>

theorem inline_pdf_taken_as_is:
  assumes "Parts msg = before @ part # after"
    and "list_all (\<lambda>p. \<not> (PartKind p = ''data'' \<and> partPDFData (Data p) \<noteq> None)) before"
    and "PartKind part = ''data''"
    and "Data part = VMap dataMap"
    and "map_of dataMap ''contentType'' = Some (VString ''application/pdf'')"
    and "map_of dataMap ''data'' = Some (VString base64Data)"
  shows "extractPDFData msg = Some base64Data \<and>
    (ExtractPDFURL input = [] \<longrightarrow>
       processRequest h input msg =
         (case fst (GenerateFromPDFData h base64Data) of
            Failed err \<Rightarrow> Failed err
          | Panic \<Rightarrow> Panic
          | Ok flashcards \<Rightarrow> Ok (buildTaskResult h flashcards msg)))"
proof -
  have "partPDFData (Data part) = Some base64Data"
    using assms(4-6) by (simp add: partPDFData_inline)
  with assms(1-3) have "extractPDFData msg = Some base64Data"
    by (simp add: extractPDFData_def firstPDFData_first)
  then show ?thesis
    by (simp add: processRequest_def)
qed

theorem inline_pdf_taken_as_is_witness:
  "extractPDFData twoUploads = Some ''JVBERi0x'' \<and>
   ExtractPDFURL ''Make flashcards from my files'' = [] \<and>
   processRequest exampleHandler ''Make flashcards from my files'' twoUploads =
     Failed \<lparr>Code = - 32602, Message = ''Invalid PDF: incorrect file format'', Cause = None\<rparr>"
proof -
  define dataMap where "dataMap =
    [(''contentType'', VString ''application/pdf''), (''data'', VString ''JVBERi0x'')]"
  define part where "part = \<lparr>PartKind = ''data'', Text = [], Data = VMap dataMap\<rparr>"
  have 1: "Parts twoUploads =
      [\<lparr>PartKind = ''text'', Text = ''Make flashcards from my files'', Data = VNil\<rparr>] @ part #
      [\<lparr>PartKind = ''data'', Text = [],
        Data = VMap [(''contentType'', VString ''application/pdf''), (''data'', VString ''JVBERi0y'')]\<rparr>]"
    by (simp add: twoUploads_def part_def dataMap_def)
  have 2: "list_all (\<lambda>p. \<not> (PartKind p = ''data'' \<and> partPDFData (Data p) \<noteq> None))
      [\<lparr>PartKind = ''text'', Text = ''Make flashcards from my files'', Data = VNil\<rparr>]"
    by simp
  have 3: "PartKind part = ''data''" and 4: "Data part = VMap dataMap"
    by (simp_all add: part_def)
  have 5: "map_of dataMap ''contentType'' = Some (VString ''application/pdf'')"
    and 6: "map_of dataMap ''data'' = Some (VString ''JVBERi0x'')"
    by (simp_all add: dataMap_def)
  have url: "ExtractPDFURL ''Make flashcards from my files'' = []"
    by code_simp
  have generated: "fst (GenerateFromPDFData exampleHandler ''JVBERi0x'') =
      Failed \<lparr>Code = - 32602, Message = ''Invalid PDF: incorrect file format'', Cause = None\<rparr>"
    by (simp add: GenerateFromPDFData_def ValidatePDF_def NewAppError_def InvalidParams_def)
  from inline_pdf_taken_as_is [OF 1 2 3 4 5 6, of "''Make flashcards from my files''" exampleHandler]
    url generated
  show ?thesis by simp
qed

text \<open>
  The claim C8 speaks of every message that contains such a part. In a message with two of
  them the bytes of the first are returned, not those of the second.
\<close>

theorem later_inline_pdf_counterexample:
  "Parts twoUploads ! 2 =
     \<lparr>PartKind = ''data'', Text = [],
      Data = VMap [(''contentType'', VString ''application/pdf''), (''data'', VString ''JVBERi0y'')]\<rparr> \<and>
   extractPDFData twoUploads = Some ''JVBERi0x'' \<and>
   extractPDFData twoUploads \<noteq> Some ''JVBERi0y''"
  by (simp add: twoUploads_def extractPDFData_def partPDFData_def KindData_def)

section \<open>Rendering and parsing again\<close>

declare TrimLeftSpace.simps [simp del] TrimRightSpace.simps [simp del] Split.simps [simp del]
  decimal.simps [simp del] fieldsFrom.simps [simp del]

lemma spaceRunes_nonempty: "[] \<notin> set spaceRunes"
  by (simp add: spaceRunes_def)

lemma spaceRune_bytes: "w \<in> set spaceRunes \<Longrightarrow> c \<in> set w \<Longrightarrow> spaceByte c"
  by (auto simp: spaceByte_def)

lemma find_SomeD: "find P xs = Some x \<Longrightarrow> x \<in> set xs \<and> P x"
  by (induction xs) (auto split: if_splits)

lemma leadingSpace_0_iff: "leadingSpace s = 0 \<longleftrightarrow> (\<forall>w \<in> set spaceRunes. \<not> prefix w s)"
proof -
  have "length w \<noteq> 0" if "find (\<lambda>w. prefix w s) spaceRunes = Some w" for w
    using find_SomeD [OF that] spaceRunes_nonempty by auto
  then show ?thesis
    by (auto simp: leadingSpace_def find_None_iff split: option.splits dest: find_SomeD)
qed

lemma trailingSpace_0_iff: "trailingSpace s = 0 \<longleftrightarrow> (\<forall>w \<in> set spaceRunes. \<not> suffix w s)"
proof -
  have "length w \<noteq> 0" if "find (\<lambda>w. suffix w s) spaceRunes = Some w" for w
    using find_SomeD [OF that] spaceRunes_nonempty by auto
  then show ?thesis
    by (auto simp: trailingSpace_def find_None_iff split: option.splits dest: find_SomeD)
qed

lemma trailingSpace_le: "trailingSpace s \<le> length s"
proof (cases "find (\<lambda>w. suffix w s) spaceRunes")
  case None
  then show ?thesis by (simp add: trailingSpace_def)
next
  case (Some w)
  then have "suffix w s" using find_SomeD by fastforce
  then have "length w \<le> length s" by (rule suffix_length_le)
  with Some show ?thesis by (simp add: trailingSpace_def)
qed

lemma leadingSpace_Cons: "\<not> spaceByte c \<Longrightarrow> leadingSpace (c # s) = 0"
  unfolding leadingSpace_0_iff
proof
  fix w assume c: "\<not> spaceByte c" and w: "w \<in> set spaceRunes"
  show "\<not> prefix w (c # s)"
  proof
    assume "prefix w (c # s)"
    moreover from w spaceRunes_nonempty have "w \<noteq> []" by metis
    ultimately have "c \<in> set w" by (cases w) simp_all
    with w c show False using spaceRune_bytes by blast
  qed
qed

lemma trailingSpace_Cons: "\<not> spaceByte c \<Longrightarrow> trailingSpace (c # s) = trailingSpace s"
proof -
  assume c: "\<not> spaceByte c"
  have "suffix w (c # s) \<longleftrightarrow> suffix w s" if "w \<in> set spaceRunes" for w
    using that c spaceRune_bytes [of w c] by (auto simp: suffix_Cons)
  then have "find (\<lambda>w. suffix w (c # s)) spaceRunes = find (\<lambda>w. suffix w s) spaceRunes"
    by (intro find_cong) auto
  then show ?thesis by (simp add: trailingSpace_def)
qed

lemma TrimLeftSpace_Cons: "\<not> spaceByte c \<Longrightarrow> TrimLeftSpace (c # s) = c # s"
  by (subst TrimLeftSpace.simps) (simp add: leadingSpace_Cons)

lemma TrimRightSpace_Cons: "\<not> spaceByte c \<Longrightarrow> TrimRightSpace (c # s) = c # TrimRightSpace s"
proof (induction s rule: TrimRightSpace.induct)
  case (1 s)
  show ?case
  proof (cases "trailingSpace s = 0")
    case True
    with 1(2) show ?thesis
      by (subst TrimRightSpace.simps, subst (2) TrimRightSpace.simps) (simp add: trailingSpace_Cons)
  next
    case False
    have "take (length (c # s) - trailingSpace (c # s)) (c # s) =
        c # take (length s - trailingSpace s) s"
      using trailingSpace_le [of s] 1(2) by (simp add: trailingSpace_Cons Suc_diff_le)
    with False 1 show ?thesis
      by (subst TrimRightSpace.simps, subst (2) TrimRightSpace.simps) (simp add: trailingSpace_Cons)
  qed
qed

lemma TrimSpace_Cons: "\<not> spaceByte c \<Longrightarrow> TrimSpace (c # s) = c # TrimRightSpace s"
  by (simp add: TrimSpace_def TrimLeftSpace_Cons TrimRightSpace_Cons)

lemma leadingSpace_Nil: "leadingSpace [] = 0"
  by (simp add: leadingSpace_0_iff spaceRunes_nonempty) (metis spaceRunes_nonempty)

lemma trailingSpace_Nil: "trailingSpace [] = 0"
  using trailingSpace_le [of "[]"] by simp

lemma not_spaceByte:
  "\<not> spaceByte (CHR ''Q'')" "\<not> spaceByte (CHR ''A'')" "\<not> spaceByte (CHR '':'')"
  "\<not> spaceByte (CHR ''#'')" "\<not> spaceByte (CHR ''G'')" "\<not> spaceByte (CHR ''*'')"
  by (simp_all add: spaceByte_def spaceRunes_def)

lemma TrimRightSpace_fixed: "trailingSpace s = 0 \<Longrightarrow> TrimRightSpace s = s"
  by (subst TrimRightSpace.simps) simp

lemma TrimLeftSpace_fixed: "leadingSpace s = 0 \<Longrightarrow> TrimLeftSpace s = s"
  by (subst TrimLeftSpace.simps) simp

lemma space_alone: "CHR 0x20 # q \<in> set spaceRunes \<Longrightarrow> q = []"
  by (simp add: spaceRunes_def)

lemma leadingSpace_space: "leadingSpace (CHR 0x20 # q) = 1"
  by (simp add: leadingSpace_def spaceRunes_def)

lemma spaceRunes_shape:
  "list_all (\<lambda>w. w \<noteq> [] \<and> leadByte (hd w) \<and> length w = runeLength (hd w) \<and>
      list_all (\<lambda>c. \<not> leadByte c) (tl w)) spaceRunes"
  by (simp add: spaceRunes_def leadByte_def runeLength_def)

lemma spaceRune_shape:
  assumes "w \<in> set spaceRunes"
  shows "w \<noteq> []" and "leadByte (hd w)" and "length w = runeLength (hd w)"
    and "c \<in> set (tl w) \<Longrightarrow> \<not> leadByte c"
  using assms spaceRunes_shape by (auto simp: list_all_iff)

lemma spaceRunes_prefix_free:
  assumes "w \<in> set spaceRunes" and "w' \<in> set spaceRunes" and "prefix w w'"
  shows "w = w'"
proof -
  from assms(1,2) have "w \<noteq> []" "w' \<noteq> []" by (auto dest: spaceRune_shape(1))
  with assms(3) have "hd w = hd w'" by (cases w; cases w') auto
  with assms(1,2) have "length w = length w'" by (simp add: spaceRune_shape(3))
  with assms(3) show ?thesis by (auto simp: prefix_def)
qed

lemma spaceRunes_no_overlap:
  assumes "w \<in> set spaceRunes" and "w' \<in> set spaceRunes" and "w' = a @ b" and "a \<noteq> []"
    and "b \<noteq> []"
  shows "hd b \<noteq> hd w"
proof -
  from assms(3-5) have "hd b \<in> set (tl w')" by (cases a) auto
  with assms(2) have "\<not> leadByte (hd b)" by (rule spaceRune_shape(4))
  moreover from assms(1) have "leadByte (hd w)" by (rule spaceRune_shape(2))
  ultimately show ?thesis by auto
qed

lemma spaceRunes_suffix_free:
  assumes "w \<in> set spaceRunes" and "w' \<in> set spaceRunes" and "suffix w w'"
  shows "w = w'"
proof -
  from assms(3) obtain a where a: "w' = a @ w" by (auto simp: suffix_def)
  show ?thesis
  proof (cases "a = []")
    case True
    with a show ?thesis by simp
  next
    case False
    from assms(1) have "w \<noteq> []" by (rule spaceRune_shape(1))
    with spaceRunes_no_overlap [OF assms(1,2) a False] show ?thesis by simp
  qed
qed

lemma leadingSpace_rune:
  assumes "w \<in> set spaceRunes"
  shows "leadingSpace (w @ x) = length w"
proof (cases "find (\<lambda>v. prefix v (w @ x)) spaceRunes")
  case None
  with assms show ?thesis by (auto simp: find_None_iff)
next
  case (Some v)
  then have v: "v \<in> set spaceRunes" "prefix v (w @ x)" by (auto dest: find_SomeD)
  then have "prefix v w \<or> prefix w v"
    by (metis prefix_append prefixI prefix_same_cases)
  with v(1) assms have "v = w" using spaceRunes_prefix_free by blast
  with Some show ?thesis by (simp add: leadingSpace_def)
qed

lemma trailingSpace_rune:
  assumes "w \<in> set spaceRunes"
  shows "trailingSpace (x @ w) = length w"
proof (cases "find (\<lambda>v. suffix v (x @ w)) spaceRunes")
  case None
  moreover have "suffix w (x @ w)" by (simp add: suffix_def)
  ultimately show ?thesis using assms by (auto simp: find_None_iff)
next
  case (Some v)
  then have v: "v \<in> set spaceRunes" "suffix v (x @ w)" by (auto dest: find_SomeD)
  then have "suffix v w \<or> suffix w v"
    by (metis suffix_append suffixI suffix_same_cases)
  with v(1) assms have "v = w" using spaceRunes_suffix_free by blast
  with Some show ?thesis by (simp add: trailingSpace_def)
qed

lemma leadingSpace_split:
  assumes "leadingSpace s \<noteq> 0"
  obtains w where "w \<in> set spaceRunes" and "s = w @ drop (leadingSpace s) s"
    and "leadingSpace s = length w"
proof -
  from assms obtain w where w: "find (\<lambda>w. prefix w s) spaceRunes = Some w"
    by (auto simp: leadingSpace_def split: option.splits)
  then have "w \<in> set spaceRunes" "prefix w s" by (auto dest: find_SomeD)
  moreover from w have "leadingSpace s = length w" by (simp add: leadingSpace_def)
  ultimately show ?thesis using that by (auto simp: prefix_def)
qed

lemma trailingSpace_split:
  assumes "trailingSpace s \<noteq> 0"
  obtains w where "w \<in> set spaceRunes" and "s = take (length s - trailingSpace s) s @ w"
    and "trailingSpace s = length w"
proof -
  from assms obtain w where w: "find (\<lambda>w. suffix w s) spaceRunes = Some w"
    by (auto simp: trailingSpace_def split: option.splits)
  then have "w \<in> set spaceRunes" "suffix w s" by (auto dest: find_SomeD)
  moreover from w have "trailingSpace s = length w" by (simp add: trailingSpace_def)
  ultimately show ?thesis using that by (auto simp: suffix_def)
qed

lemma TrimLeftSpace_Nil: "TrimLeftSpace [] = []"
  by (subst TrimLeftSpace.simps) (simp add: leadingSpace_Nil)

lemma TrimRightSpace_Nil: "TrimRightSpace [] = []"
  by (subst TrimRightSpace.simps) (simp add: trailingSpace_Nil)

lemma TrimLeftSpace_rune: "w \<in> set spaceRunes \<Longrightarrow> TrimLeftSpace (w @ x) = TrimLeftSpace x"
  by (subst TrimLeftSpace.simps) (simp add: leadingSpace_rune spaceRune_shape(1))

lemma TrimRightSpace_rune: "w \<in> set spaceRunes \<Longrightarrow> TrimRightSpace (x @ w) = TrimRightSpace x"
  by (subst TrimRightSpace.simps) (simp add: trailingSpace_rune spaceRune_shape(1))

lemma TrimLeftSpace_suffix: "suffix (TrimLeftSpace s) s"
proof (induction s rule: TrimLeftSpace.induct)
  case (1 s)
  show ?case
  proof (cases "leadingSpace s = 0")
    case True
    then show ?thesis by (simp add: TrimLeftSpace_fixed)
  next
    case False
    with 1 have "suffix (TrimLeftSpace (drop (leadingSpace s) s)) (drop (leadingSpace s) s)"
      by simp
    moreover have "suffix (drop (leadingSpace s) s) s" by (rule suffix_drop)
    ultimately have "suffix (TrimLeftSpace (drop (leadingSpace s) s)) s"
      by (rule suffix_order.trans)
    with False show ?thesis by (subst TrimLeftSpace.simps) simp
  qed
qed

lemma trailingSpace_suffix:
  assumes "suffix x s" and "trailingSpace s = 0"
  shows "trailingSpace x = 0"
  unfolding trailingSpace_0_iff
proof
  fix w assume "w \<in> set spaceRunes"
  with assms(2) have "\<not> suffix w s" by (simp add: trailingSpace_0_iff)
  with assms(1) show "\<not> suffix w x" using suffix_order.trans by blast
qed

text \<open>A rune at the end stays at the end when the white space at the start is cut off.\<close>

lemma leadingSpace_append_rune:
  assumes "leadingSpace x = 0" and "x \<noteq> []" and "w \<in> set spaceRunes"
  shows "leadingSpace (x @ w) = 0"
  unfolding leadingSpace_0_iff
proof
  fix v assume v: "v \<in> set spaceRunes"
  show "\<not> prefix v (x @ w)"
  proof
    assume p: "prefix v (x @ w)"
    from assms(1) v have "\<not> prefix v x" by (simp add: leadingSpace_0_iff)
    with p obtain b where b: "v = x @ b" "b \<noteq> []" "prefix b w"
      by (auto simp: prefix_append)
    from assms(3) have "w \<noteq> []" by (rule spaceRune_shape(1))
    with b(2,3) have "hd b = hd w" by (cases b; cases w) auto
    with spaceRunes_no_overlap [OF assms(3) v b(1) assms(2) b(2)] show False by simp
  qed
qed

lemma TrimLeftSpace_append_rune:
  assumes "w \<in> set spaceRunes"
  shows "TrimLeftSpace (x @ w) = (if TrimLeftSpace x = [] then [] else TrimLeftSpace x @ w)"
proof (induction x rule: TrimLeftSpace.induct)
  case (1 x)
  show ?case
  proof (cases "leadingSpace x = 0")
    case True
    note zero = this
    show ?thesis
    proof (cases "x = []")
      case True
      with assms TrimLeftSpace_rune [OF assms, of "[]"] show ?thesis
        by (simp add: TrimLeftSpace_Nil)
    next
      case False
      with zero assms have "leadingSpace (x @ w) = 0" by (simp add: leadingSpace_append_rune)
      with zero False show ?thesis by (simp add: TrimLeftSpace_fixed)
    qed
  next
    case False
    then obtain v where v: "v \<in> set spaceRunes" "x = v @ drop (leadingSpace x) x"
      by (rule leadingSpace_split)
    define r where "r = drop (leadingSpace x) x"
    from v(2) have x: "x = v @ r" by (simp add: r_def)
    from 1 False have ih: "TrimLeftSpace (r @ w) = (if TrimLeftSpace r = [] then [] else TrimLeftSpace r @ w)"
      by (simp add: r_def)
    have "TrimLeftSpace (x @ w) = TrimLeftSpace (r @ w)"
      using TrimLeftSpace_rune [OF v(1), of "r @ w"] by (simp add: x)
    moreover have "TrimLeftSpace x = TrimLeftSpace r"
      using TrimLeftSpace_rune [OF v(1), of r] by (simp add: x)
    ultimately show ?thesis using ih by simp
  qed
qed

text \<open>Cutting off at the start and at the end commute.\<close>

lemma TrimLeftSpace_TrimRightSpace:
  "TrimLeftSpace (TrimRightSpace s) = TrimRightSpace (TrimLeftSpace s)"
proof (induction s rule: TrimRightSpace.induct)
  case (1 s)
  show ?case
  proof (cases "trailingSpace s = 0")
    case True
    with TrimLeftSpace_suffix [of s] have "trailingSpace (TrimLeftSpace s) = 0"
      by (rule trailingSpace_suffix)
    with True show ?thesis by (simp add: TrimRightSpace_fixed)
  next
    case False
    then obtain w where w: "w \<in> set spaceRunes" "s = take (length s - trailingSpace s) s @ w"
      by (rule trailingSpace_split)
    define x where "x = take (length s - trailingSpace s) s"
    from w(2) have s: "s = x @ w" by (simp add: x_def)
    from 1 False have ih: "TrimLeftSpace (TrimRightSpace x) = TrimRightSpace (TrimLeftSpace x)"
      by (simp add: x_def)
    have "TrimRightSpace s = TrimRightSpace x"
      using TrimRightSpace_rune [OF w(1), of x] by (simp add: s)
    moreover have "TrimRightSpace (TrimLeftSpace s) = TrimRightSpace (TrimLeftSpace x)"
      using TrimLeftSpace_append_rune [OF w(1), of x] TrimRightSpace_rune [OF w(1), of "TrimLeftSpace x"]
      by (simp add: s TrimRightSpace_Nil)
    ultimately show ?thesis using ih by simp
  qed
qed

lemma trailingSpace_TrimRightSpace: "trailingSpace (TrimRightSpace s) = 0"
proof (induction s rule: TrimRightSpace.induct)
  case (1 s)
  then show ?case by (subst TrimRightSpace.simps) simp
qed

lemma TrimSpace_TrimRightSpace: "TrimSpace (TrimRightSpace s) = TrimSpace s"
  by (simp add: TrimSpace_def TrimLeftSpace_TrimRightSpace TrimRightSpace_fixed
      trailingSpace_TrimRightSpace)

lemma TrimSpace_nonempty: "TrimSpace s \<noteq> [] \<Longrightarrow> TrimRightSpace s \<noteq> []"
  by (auto simp: TrimSpace_def TrimLeftSpace_Nil simp flip: TrimLeftSpace_TrimRightSpace)

lemma trailingSpace_space_Cons: "q \<noteq> [] \<Longrightarrow> trailingSpace (CHR 0x20 # q) = trailingSpace q"
proof -
  assume q: "q \<noteq> []"
  have "suffix w (CHR 0x20 # q) \<longleftrightarrow> suffix w q" if "w \<in> set spaceRunes" for w
    using that q space_alone by (auto simp: suffix_Cons)
  then have "find (\<lambda>w. suffix w (CHR 0x20 # q)) spaceRunes = find (\<lambda>w. suffix w q) spaceRunes"
    by (intro find_cong) auto
  then show ?thesis by (simp add: trailingSpace_def)
qed

lemma TrimRightSpace_space_Cons:
  "TrimRightSpace q \<noteq> [] \<Longrightarrow> TrimRightSpace (CHR 0x20 # q) = CHR 0x20 # TrimRightSpace q"
proof (induction q rule: TrimRightSpace.induct)
  case (1 q)
  from 1(2) have q: "q \<noteq> []" using TrimRightSpace_Nil by auto
  show ?case
  proof (cases "trailingSpace q = 0")
    case True
    with q show ?thesis
      by (simp add: TrimRightSpace_fixed trailingSpace_space_Cons)
  next
    case False
    define x where "x = take (length q - trailingSpace q) q"
    have tq: "TrimRightSpace q = TrimRightSpace x"
      using False by (subst TrimRightSpace.simps) (simp add: x_def)
    have "take (length (CHR 0x20 # q) - trailingSpace (CHR 0x20 # q)) (CHR 0x20 # q) = CHR 0x20 # x"
      using trailingSpace_le [of q] q by (simp add: trailingSpace_space_Cons Suc_diff_le x_def)
    then have "TrimRightSpace (CHR 0x20 # q) = TrimRightSpace (CHR 0x20 # x)"
      using False q by (subst TrimRightSpace.simps) (simp add: trailingSpace_space_Cons)
    moreover from 1 False tq have "TrimRightSpace (CHR 0x20 # x) = CHR 0x20 # TrimRightSpace x"
      by (simp add: x_def)
    ultimately show ?thesis using tq by simp
  qed
qed

lemma TrimSpace_space_Cons: "TrimSpace (CHR 0x20 # q) = TrimSpace q"
proof -
  have "TrimLeftSpace (CHR 0x20 # q) = TrimLeftSpace q"
    by (subst TrimLeftSpace.simps) (simp add: leadingSpace_space)
  then show ?thesis by (simp add: TrimSpace_def)
qed

text \<open>A rendered field line, trimmed, and its field read back.\<close>

lemma TrimSpace_field_line:
  assumes "TrimSpace q \<noteq> []" and "\<not> spaceByte k"
  shows "TrimSpace (k # CHR '':'' # CHR 0x20 # q) = k # CHR '':'' # CHR 0x20 # TrimRightSpace q"
proof -
  from assms(1) have "TrimRightSpace q \<noteq> []" by (rule TrimSpace_nonempty)
  then have "TrimRightSpace (CHR 0x20 # q) = CHR 0x20 # TrimRightSpace q"
    by (rule TrimRightSpace_space_Cons)
  with assms(2) show ?thesis
    by (simp add: TrimSpace_Cons TrimRightSpace_Cons not_spaceByte)
qed

lemma TrimSpace_field_value: "TrimSpace (CHR 0x20 # TrimRightSpace q) = TrimSpace q"
  by (simp add: TrimSpace_space_Cons TrimSpace_TrimRightSpace)

text \<open>Lines and blocks of the rendered text.\<close>

lemma Index_no_newline: "CHR 0x0A \<notin> set a \<Longrightarrow> Index a NL = None"
  by (induction a) (auto simp: NL_def)

lemma Index_newline: "CHR 0x0A \<notin> set a \<Longrightarrow> Index (a @ NL @ b) NL = Some (length a)"
  by (induction a) (auto simp: NL_def)

lemma Split_no_newline: "CHR 0x0A \<notin> set a \<Longrightarrow> Split a NL = [a]"
  by (subst Split.simps) (simp add: Index_no_newline, simp add: NL_def)

lemma Split_newline: "CHR 0x0A \<notin> set a \<Longrightarrow> Split (a @ NL @ b) NL = a # Split b NL"
  by (subst Split.simps) (simp add: Index_newline, simp add: NL_def)

lemma Index_blank_line:
  "blockLike a \<Longrightarrow> Index (a @ NL @ NL @ b) (NL @ NL) = Some (length a)"
  by (induction a rule: blockLike.induct) (auto simp: NL_def)

lemma Split_blank_line:
  "blockLike a \<Longrightarrow> Split (a @ NL @ NL @ b) (NL @ NL) = a # Split b (NL @ NL)"
  by (subst Split.simps) (simp add: Index_blank_line, simp add: NL_def)

lemma Split_empty: "Split [] (NL @ NL) = [[]]"
  by (subst Split.simps) (simp add: NL_def)

lemma blockLike_line: "CHR 0x0A \<notin> set a \<Longrightarrow> blockLike a"
  by (induction a rule: blockLike.induct) auto

lemma blockLike_lines:
  "CHR 0x0A \<notin> set a \<Longrightarrow> c \<noteq> CHR 0x0A \<Longrightarrow> blockLike (c # b) \<Longrightarrow> blockLike (a @ NL @ c # b)"
  by (induction a rule: blockLike.induct) (auto simp: NL_def)

lemma decimal_no_newline: "CHR 0x0A \<notin> set (decimal n)"
proof (induction n rule: decimal.induct)
  case (1 n)
  have digit: "''0123456789'' ! k \<noteq> CHR 0x0A" if "k < 10" for k
  proof -
    from that have "''0123456789'' ! k \<in> set ''0123456789''" by (intro nth_mem) simp
    then show ?thesis by auto
  qed
  show ?case
  proof (cases "n < 10")
    case True
    with digit [of n] show ?thesis by (subst decimal.simps) auto
  next
    case False
    with 1 digit [of "n mod 10"] show ?thesis by (subst decimal.simps) auto
  qed
qed

lemma formatInt_no_newline: "CHR 0x0A \<notin> set (formatInt i)"
  by (simp add: formatInt_def decimal_no_newline)

lemma cardLabel_no_newline: "CHR 0x0A \<notin> set (Topic c) \<Longrightarrow> CHR 0x0A \<notin> set (cardLabel i c)"
  by (simp add: cardLabel_def formatInt_no_newline)

lemma cardLabel_star: "\<exists>rest. cardLabel i c = CHR ''*'' # rest"
  by (simp add: cardLabel_def)

lemma writeCards_step:
  "writeCards builder i (c # cards) = writeCards (builder @ cardBlock i c @ NL @ NL) (i + 1) cards"
  by (simp add: cardBlock_def cardLabel_def)

lemma writeCards_builder: "writeCards builder i cards = builder @ writeCards [] i cards"
proof (induction cards arbitrary: builder i)
  case Nil
  show ?case by simp
next
  case (Cons c cards)
  have "writeCards builder i (c # cards) =
      (builder @ cardBlock i c @ NL @ NL) @ writeCards [] (i + 1) cards"
    unfolding writeCards_step by (rule Cons.IH)
  moreover have "writeCards [] i (c # cards) =
      ([] @ cardBlock i c @ NL @ NL) @ writeCards [] (i + 1) cards"
    unfolding writeCards_step by (rule Cons.IH)
  ultimately show ?case by simp
qed

lemma writeCards_Cons:
  "writeCards [] i (c # cards) = cardBlock i c @ NL @ NL @ writeCards [] (i + 1) cards"
proof -
  have "writeCards [] i (c # cards) = ([] @ cardBlock i c @ NL @ NL) @ writeCards [] (i + 1) cards"
    unfolding writeCards_step by (rule writeCards_builder)
  then show ?thesis by simp
qed

lemma cardBlock_blockLike:
  assumes "plainCard c"
  shows "blockLike (cardBlock i c)"
proof -
  have a: "blockLike (CHR ''A'' # '': '' @ Answer c)"
    using assms by (intro blockLike_line) (simp add: plainCard_def)
  have q: "blockLike (CHR ''Q'' # ('': '' @ Question c) @ NL @ CHR ''A'' # '': '' @ Answer c)"
    using blockLike_lines [of "CHR ''Q'' # '': '' @ Question c" "CHR ''A''" "'': '' @ Answer c"] a assms
    by (simp add: plainCard_def)
  have "blockLike (cardLabel i c @ NL @ CHR ''Q'' # ('': '' @ Question c) @ NL @ CHR ''A'' # '': '' @ Answer c)"
    using assms by (intro blockLike_lines cardLabel_no_newline q) (simp_all add: plainCard_def)
  then show ?thesis by (simp add: cardBlock_def)
qed

lemma Split_writeCards:
  "list_all plainCard cards \<Longrightarrow> Split (writeCards [] i cards) (NL @ NL) = cardBlocks i cards"
proof (induction cards arbitrary: i)
  case Nil
  show ?case by (simp add: Split_empty)
next
  case (Cons c cards)
  then show ?case
    by (simp add: writeCards_Cons Split_blank_line cardBlock_blockLike del: writeCards.simps)
qed

lemma cardBlock_lines:
  assumes "plainCard c"
  shows "Split (cardBlock i c) NL = [cardLabel i c, ''Q: '' @ Question c, ''A: '' @ Answer c]"
proof -
  have "Split (''A: '' @ Answer c) NL = [''A: '' @ Answer c]"
    using assms by (intro Split_no_newline) (simp add: plainCard_def)
  moreover have "Split ((''Q: '' @ Question c) @ NL @ ''A: '' @ Answer c) NL =
      (''Q: '' @ Question c) # Split (''A: '' @ Answer c) NL"
    using assms by (intro Split_newline) (simp add: plainCard_def)
  moreover have "Split (cardLabel i c @ NL @ (''Q: '' @ Question c) @ NL @ ''A: '' @ Answer c) NL =
      cardLabel i c # Split ((''Q: '' @ Question c) @ NL @ ''A: '' @ Answer c) NL"
    using assms by (intro Split_newline cardLabel_no_newline) (simp add: plainCard_def)
  ultimately show ?thesis by (simp add: cardBlock_def)
qed

lemma specCard_cardBlock:
  assumes "plainCard c"
  shows "specCard (cardBlock i c) = [readBack c]"
proof -
  define ls where "ls = Split (cardBlock i c) NL"
  have ls: "ls = [cardLabel i c, ''Q: '' @ Question c, ''A: '' @ Answer c]"
    unfolding ls_def using assms by (rule cardBlock_lines)
  obtain rest where label: "cardLabel i c = CHR ''*'' # rest"
    using cardLabel_star by blast
  from assms have ne: "TrimSpace (Question c) \<noteq> []" "TrimSpace (Answer c) \<noteq> []"
    by (simp_all add: plainCard_def)
  have q: "TrimSpace (''Q: '' @ Question c) = ''Q: '' @ TrimRightSpace (Question c)"
    using TrimSpace_field_line [OF ne(1), of "CHR ''Q''"] not_spaceByte by simp
  have a: "TrimSpace (''A: '' @ Answer c) = ''A: '' @ TrimRightSpace (Answer c)"
    using TrimSpace_field_line [OF ne(2), of "CHR ''A''"] not_spaceByte by simp
  have q': "TrimSpace ('' '' @ TrimRightSpace (Question c)) = TrimSpace (Question c)"
    and a': "TrimSpace ('' '' @ TrimRightSpace (Answer c)) = TrimSpace (Answer c)"
    by (simp_all add: TrimSpace_field_value)
  have fq: "specField ''Q:'' ls = TrimSpace (Question c)"
    unfolding ls using q a q' by (simp add: specField_def label TrimSpace_Cons not_spaceByte)
  have fa: "specField ''A:'' ls = TrimSpace (Answer c)"
    unfolding ls using q a a' by (simp add: specField_def label TrimSpace_Cons not_spaceByte)
  have ft: "specField ''T:'' ls = []"
    unfolding ls using q a by (simp add: specField_def label TrimSpace_Cons not_spaceByte)
  show ?thesis
    using ne by (simp add: specCard_def Let_def fq fa ft readBack_def flip: ls_def)
qed

lemma specCard_mark_line:
  assumes "CHR 0x0A \<notin> set s" and "\<not> spaceByte c" and "c \<noteq> CHR 0x0A"
    and "c \<noteq> CHR ''Q''" and "c \<noteq> CHR ''A''"
  shows "specCard (c # s) = []"
proof -
  from assms(1,3) have "Split (c # s) NL = [c # s]"
    by (intro Split_no_newline) simp
  with assms(2,4) show ?thesis
    by (simp add: specCard_def specField_def TrimSpace_Cons)
qed

lemma specCard_empty: "specCard [] = []"
  by code_simp

lemma Contains_middle: "Contains (a @ sub @ b) sub"
  unfolding Contains_iff by (rule exI [of _ "length a"]) simp

lemma cardBlock_kept: "Contains (cardBlock i c) ''Q:'' \<and> Contains (cardBlock i c) ''A:''"
proof
  have "Contains ((cardLabel i c @ NL) @ ''Q:'' @ ('' '' @ Question c @ NL @ ''A: '' @ Answer c)) ''Q:''"
    by (rule Contains_middle)
  then show "Contains (cardBlock i c) ''Q:''" by (simp add: cardBlock_def)
  have "Contains ((cardLabel i c @ NL @ ''Q: '' @ Question c @ NL) @ ''A:'' @ ('' '' @ Answer c)) ''A:''"
    by (rule Contains_middle)
  then show "Contains (cardBlock i c) ''A:''" by (simp add: cardBlock_def)
qed

lemma cards_of_cardBlocks:
  "list_all plainCard cards \<Longrightarrow>
     concat (map specCard (filter (\<lambda>b. Contains b ''Q:'' \<and> Contains b ''A:'') (cardBlocks i cards))) =
       map readBack cards"
proof (induction cards arbitrary: i)
  case Nil
  show ?case by (simp add: specCard_empty)
next
  case (Cons c cards)
  then show ?case
    by (simp add: cardBlock_kept specCard_cardBlock)
qed

lemma skip_block:
  "specCard b = [] \<Longrightarrow>
     concat (map specCard (filter P (b # bs))) = concat (map specCard (filter P bs))"
  by simp

lemma Split_FormatAsText:
  assumes "CHR 0x0A \<notin> set (Title s)" and "CHR 0x0A \<notin> set (Source s)"
    and "list_all plainCard (Flashcards s)"
  shows "Split (FormatAsText s) (NL @ NL) =
    (''# '' @ Title s) #
    (''Generated '' @ formatInt (TotalCards s) @ '' flashcards from: '' @ Source s) #
    cardBlocks 0 (Flashcards s)"
proof -
  define h1 where "h1 = ''# '' @ Title s"
  define h2 where "h2 = ''Generated '' @ formatInt (TotalCards s) @ '' flashcards from: '' @ Source s"
  have b1: "blockLike h1" and b2: "blockLike h2"
    using assms(1,2) by (auto intro!: blockLike_line simp: h1_def h2_def formatInt_no_newline)
  have "FormatAsText s = (h1 @ NL @ NL @ h2 @ NL @ NL) @ writeCards [] 0 (Flashcards s)"
    unfolding FormatAsText_def h1_def h2_def by (subst writeCards_builder) simp
  then have "FormatAsText s = h1 @ NL @ NL @ h2 @ NL @ NL @ writeCards [] 0 (Flashcards s)"
    by simp
  with assms(3) have "Split (FormatAsText s) (NL @ NL) = h1 # h2 # cardBlocks 0 (Flashcards s)"
    by (simp add: Split_blank_line b1 b2 Split_writeCards)
  then show ?thesis unfolding h1_def h2_def .
qed

lemma readBack_trimmed:
  "TrimSpace (Question c) = Question c \<Longrightarrow> TrimSpace (Answer c) = Answer c \<Longrightarrow>
     (Question (readBack c), Answer (readBack c)) = (Question c, Answer c)"
  by (simp add: readBack_def)

text \<open>
  C5, as the code has it. For every set whose title and source hold no newline and whose
  cards hold no newline in question, answer and topic and have a question and an answer that
  are not empty once trimmed, parsing the text that \<open>FormatAsText\<close> renders gives, card by
  card and in the order of the set, the trimmed question, the trimmed answer and the topic
  \<open>Concept\<close> (the topic of the label line is not read back). So the pairs of question and
  answer come back as they are exactly when they have no white space at either end.
\<close>

theorem format_parse_roundtrip:
  assumes "CHR 0x0A \<notin> set (Title s)" and "CHR 0x0A \<notin> set (Source s)"
    and "list_all plainCard (Flashcards s)"
  shows "parseFlashcards (FormatAsText s) = map readBack (Flashcards s) \<and>
    (list_all (\<lambda>c. TrimSpace (Question c) = Question c \<and> TrimSpace (Answer c) = Answer c)
        (Flashcards s) \<longrightarrow>
      map (\<lambda>c. (Question c, Answer c)) (parseFlashcards (FormatAsText s)) =
        map (\<lambda>c. (Question c, Answer c)) (Flashcards s))"
proof -
  have h1: "specCard (''# '' @ Title s) = []"
    using specCard_mark_line [of "'' '' @ Title s" "CHR ''#''"] assms(1) not_spaceByte by simp
  have h2: "specCard (''Generated '' @ formatInt (TotalCards s) @ '' flashcards from: '' @ Source s) = []"
    using specCard_mark_line
      [of "''enerated '' @ formatInt (TotalCards s) @ '' flashcards from: '' @ Source s" "CHR ''G''"]
      assms(2) not_spaceByte formatInt_no_newline
    by simp
  have parsed: "parseFlashcards (FormatAsText s) = map readBack (Flashcards s)"
    unfolding parseFlashcards_def scanCards_append Split_FormatAsText [OF assms]
    using cards_of_cardBlocks [OF assms(3), of 0]
    by (simp only: skip_block [OF h1] skip_block [OF h2] append_Nil)
  have pairs: "map (\<lambda>c. (Question c, Answer c)) (map readBack cards) =
      map (\<lambda>c. (Question c, Answer c)) cards"
    if "list_all (\<lambda>c. TrimSpace (Question c) = Question c \<and> TrimSpace (Answer c) = Answer c) cards"
    for cards
    using that
  proof (induction cards)
    case Nil
    show ?case by simp
  next
    case (Cons c cards)
    then have "TrimSpace (Question c) = Question c" "TrimSpace (Answer c) = Answer c"
      by simp_all
    then have "(Question (readBack c), Answer (readBack c)) = (Question c, Answer c)"
      by (rule readBack_trimmed)
    with Cons show ?case by simp
  qed
  show ?thesis
  proof (rule conjI, rule parsed, rule impI)
    assume "list_all (\<lambda>c. TrimSpace (Question c) = Question c \<and> TrimSpace (Answer c) = Answer c)
        (Flashcards s)"
    then show "map (\<lambda>c. (Question c, Answer c)) (parseFlashcards (FormatAsText s)) =
        map (\<lambda>c. (Question c, Answer c)) (Flashcards s)"
      unfolding parsed by (rule pairs)
  qed
qed

theorem format_parse_roundtrip_witness:
  "parseFlashcards (FormatAsText exampleSet) =
     [\<lparr>Question = ''What is 2+2?'', Answer = ''4'', Topic = ''Concept''\<rparr>,
      \<lparr>Question = ''Capital of France?'', Answer = ''Paris'', Topic = ''Concept''\<rparr>] \<and>
   map (\<lambda>c. (Question c, Answer c)) (parseFlashcards (FormatAsText exampleSet)) =
     map (\<lambda>c. (Question c, Answer c)) (Flashcards exampleSet) \<and>
   parseFlashcards (FormatAsText paddedSet) =
     [\<lparr>Question = ''What is 2+2?'', Answer = ''4'', Topic = ''Concept''\<rparr>]"
proof -
  have 1: "CHR 0x0A \<notin> set (Title exampleSet)" and 2: "CHR 0x0A \<notin> set (Source exampleSet)"
    by (simp_all add: exampleSet_def)
  have 3: "list_all plainCard (Flashcards exampleSet)"
    unfolding plainCard_def exampleSet_def by code_simp
  have 4: "list_all (\<lambda>c. TrimSpace (Question c) = Question c \<and> TrimSpace (Answer c) = Answer c)
      (Flashcards exampleSet)"
    unfolding exampleSet_def by code_simp
  have rb: "map readBack (Flashcards exampleSet) =
     [\<lparr>Question = ''What is 2+2?'', Answer = ''4'', Topic = ''Concept''\<rparr>,
      \<lparr>Question = ''Capital of France?'', Answer = ''Paris'', Topic = ''Concept''\<rparr>]"
    unfolding readBack_def exampleSet_def by code_simp
  have 5: "CHR 0x0A \<notin> set (Title paddedSet)" and 6: "CHR 0x0A \<notin> set (Source paddedSet)"
    by (simp_all add: paddedSet_def)
  have 7: "list_all plainCard (Flashcards paddedSet)"
    unfolding plainCard_def paddedSet_def by code_simp
  have rb': "map readBack (Flashcards paddedSet) =
     [\<lparr>Question = ''What is 2+2?'', Answer = ''4'', Topic = ''Concept''\<rparr>]"
    unfolding readBack_def paddedSet_def by code_simp
  note example = format_parse_roundtrip [OF 1 2 3]
  from example have "parseFlashcards (FormatAsText exampleSet) = map readBack (Flashcards exampleSet)"
    by (rule conjunct1)
  then have first: "parseFlashcards (FormatAsText exampleSet) =
     [\<lparr>Question = ''What is 2+2?'', Answer = ''4'', Topic = ''Concept''\<rparr>,
      \<lparr>Question = ''Capital of France?'', Answer = ''Paris'', Topic = ''Concept''\<rparr>]"
    using rb by (rule trans)
  from example 4 have second: "map (\<lambda>c. (Question c, Answer c)) (parseFlashcards (FormatAsText exampleSet)) =
     map (\<lambda>c. (Question c, Answer c)) (Flashcards exampleSet)"
    by (rule conjunct2 [THEN mp])
  from format_parse_roundtrip [OF 5 6 7]
  have "parseFlashcards (FormatAsText paddedSet) = map readBack (Flashcards paddedSet)"
    by (rule conjunct1)
  then have third: "parseFlashcards (FormatAsText paddedSet) =
     [\<lparr>Question = ''What is 2+2?'', Answer = ''4'', Topic = ''Concept''\<rparr>]"
    using rb' by (rule trans)
  from first second third show ?thesis by (intro conjI)
qed

text \<open>
  The claim C5 asks only that question, answer and topic hold no newline and are not empty
  after trimming. A question that starts with a space comes back without it, so the pairs
  differ; and a title with lines of its own, which the claim does not exclude, comes back as
  a card more.
\<close>

theorem padded_question_counterexample:
  "Flashcards paddedSet = [\<lparr>Question = '' What is 2+2?'', Answer = ''4'', Topic = ''Math''\<rparr>] \<and>
   CHR 0x0A \<notin> set '' What is 2+2?'' \<and> TrimSpace '' What is 2+2?'' \<noteq> [] \<and>
   CHR 0x0A \<notin> set ''4'' \<and> TrimSpace ''4'' \<noteq> [] \<and>
   CHR 0x0A \<notin> set ''Math'' \<and> TrimSpace ''Math'' \<noteq> [] \<and>
   parseFlashcards (FormatAsText paddedSet) =
     [\<lparr>Question = ''What is 2+2?'', Answer = ''4'', Topic = ''Concept''\<rparr>] \<and>
   map Question (parseFlashcards (FormatAsText paddedSet)) \<noteq> map Question (Flashcards paddedSet) \<and>
   Flashcards titledSet = [\<lparr>Question = ''What is 2+2?'', Answer = ''4'', Topic = ''Math''\<rparr>] \<and>
   parseFlashcards (FormatAsText titledSet) =
     [\<lparr>Question = ''extra'', Answer = ''card'', Topic = ''Concept''\<rparr>,
      \<lparr>Question = ''What is 2+2?'', Answer = ''4'', Topic = ''Concept''\<rparr>]"
  by code_simp

end
